theory Spec2Isabelle
  imports Complex_Main "HOL-Library.AList"
begin

section \<open>Data model of the report job service\<close>

text \<open>
  The embedding follows \<^verbatim>\<open>src/reports/reports.service.ts\<close> and the submission
  endpoint of \<^verbatim>\<open>src/reports/reports.controller.ts\<close>.

  JavaScript numbers are modelled as \<^typ>\<open>real\<close> (the rounding of doubles is not
  modelled); counters that only ever hold non-negative integers are \<^typ>\<open>nat\<close>.
  Every reading of \<^verbatim>\<open>performance.now()\<close>, every identifier drawn by
  \<^verbatim>\<open>randomUUID()\<close> and the outcome of every file operation is an explicit argument
  of the function that asks for it.
\<close>

datatype ReportType = Accounts | Yearly | Fs | All

datatype JobStatus = Pending | Processing | Completed | Failed

record Timestamps =
  created :: real
  started :: "real option"
  completed :: "real option"

text \<open>
  Of \<^verbatim>\<open>JobMetrics\<close> the fields \<^verbatim>\<open>memoryUsage\<close> (snapshots of
  \<^verbatim>\<open>process.memoryUsage()\<close>) and \<^verbatim>\<open>filesSizes\<close> (never assigned) are left out.
\<close>

record JobMetrics =
  responseTime :: "real option"
  processingTime :: "real option"
  concurrentJobs :: "nat option"

record JobData =
  jobId :: string
  jtype :: ReportType
  status :: JobStatus
  timestamps :: Timestamps
  metrics :: JobMetrics
  resultPaths :: "string list"
  errorMessage :: "string option"

text \<open>
  The nested object \<^verbatim>\<open>legacyComparisonData\<close> lives in a store of its own: the
  aggregate holds a reference to it, and a spread copy of the aggregate copies that
  reference. \<^verbatim>\<open>performanceImprovement\<close> is the text the source builds with
  \<^verbatim>\<open>toFixed(1)\<close> and a percent sign.
\<close>

record LegacyComparisonData =
  avgSyncResponseTime :: real
  avgAsyncResponseTime :: real
  performanceImprovement :: string

type_synonym ref = nat

record SystemMetrics =
  totalJobsProcessed :: nat
  averageResponseTime :: real
  averageProcessingTime :: real
  concurrentProcessingCapability :: nat
  memoryEfficiency :: real
  successRate :: real
  legacyComparisonData :: ref

text \<open>
  \<^verbatim>\<open>jobs\<close> is a JavaScript \<^verbatim>\<open>Map\<close>: an association list in insertion order,
  written with \<^const>\<open>AList.update\<close> (replace in place, or append) and read with
  \<^const>\<open>map_of\<close>. The legacy \<^verbatim>\<open>states\<close> table of the synchronous endpoints is
  not part of the job subsystem and is left out.
\<close>

record ReportsService =
  jobs :: "(string \<times> JobData) list"
  jobQueue :: "string list"
  isProcessing :: bool
  systemMetrics :: SystemMetrics
  heap :: "ref \<Rightarrow> LegacyComparisonData"

definition initialLegacy :: LegacyComparisonData where
  "initialLegacy =
     \<lparr>avgSyncResponseTime = 10000, avgAsyncResponseTime = 0, performanceImprovement = ''0%''\<rparr>"

definition initialService :: ReportsService where
  "initialService =
     \<lparr>jobs = [], jobQueue = [], isProcessing = False,
      systemMetrics =
        \<lparr>totalJobsProcessed = 0, averageResponseTime = 0, averageProcessingTime = 0,
         concurrentProcessingCapability = 0, memoryEfficiency = 0, successRate = 0,
         legacyComparisonData = 0\<rparr>,
      heap = (\<lambda>_. initialLegacy)\<rparr>"

fun statusName :: "JobStatus \<Rightarrow> string" where
  "statusName Pending = ''pending''"
| "statusName Processing = ''processing''"
| "statusName Completed = ''completed''"
| "statusName Failed = ''failed''"

fun typeName :: "ReportType \<Rightarrow> string" where
  "typeName Accounts = ''accounts''"
| "typeName Yearly = ''yearly''"
| "typeName Fs = ''fs''"
| "typeName All = ''all''"

section \<open>Submission and metrics of the accept path\<close>

text \<open>
  \<^verbatim>\<open>Number.prototype.toFixed(1)\<close> on a real number: the sign, then the integer \<open>n\<close>
  for which \<open>n / 10\<close> is nearest to the absolute value (the larger one of two), written
  in decimal with one digit after the point. (From ten to the power 21 on, the source switches
  to exponent notation, which is not reproduced.)
\<close>

function decimal :: "nat \<Rightarrow> string" where
  "decimal n =
     (if n < 10 then [''0123456789'' ! n]
      else decimal (n div 10) @ [''0123456789'' ! (n mod 10)])"
  by pat_completeness auto
termination
  by (relation "measure id") auto

declare decimal.simps [simp del]

definition toFixed1 :: "real \<Rightarrow> string" where
  "toFixed1 x =
     (let n = nat \<lfloor>\<bar>x\<bar> * 10 + 1 / 2\<rfloor>
      in (if x < 0 then ''-'' else []) @ decimal (n div 10) @ ''.'' @ decimal (n mod 10))"

text \<open>
  \<^verbatim>\<open>updateResponseTimeMetrics\<close>: the divisor is
  \<^verbatim>\<open>this.systemMetrics.totalJobsProcessed || 1\<close>; the nested comparison object is
  written through the reference held by the aggregate.
\<close>

definition updateResponseTimeMetrics :: "real \<Rightarrow> ReportsService \<Rightarrow> ReportsService" where
  "updateResponseTimeMetrics rt s =
     (let m = systemMetrics s;
          currentAvg = averageResponseTime m;
          totalJobs = (if totalJobsProcessed m = 0 then 1 else totalJobsProcessed m);
          newAvg = (currentAvg * (real totalJobs - 1) + rt) / real totalJobs;
          r = legacyComparisonData m;
          l = heap s r;
          improvement = (avgSyncResponseTime l - newAvg) / avgSyncResponseTime l * 100
      in s\<lparr>systemMetrics := m\<lparr>averageResponseTime := newAvg\<rparr>,
            heap := (heap s)(r := l\<lparr>avgAsyncResponseTime := newAvg,
                                     performanceImprovement :=
                                       toFixed1 improvement @ ''%''\<rparr>)\<rparr>)"

text \<open>
  \<^verbatim>\<open>createJob\<close>. \<open>uuid\<close> is the value of \<^verbatim>\<open>randomUUID()\<close>; \<open>responseStart\<close>,
  \<open>createdAt\<close> and \<open>responseEnd\<close> are the three clock readings. The call
  \<^verbatim>\<open>setImmediate(() => this.processQueue())\<close> only schedules the worker; the worker
  itself is modelled below.
\<close>

definition newJob :: "string \<Rightarrow> real \<Rightarrow> ReportType \<Rightarrow> nat \<Rightarrow> JobData" where
  "newJob uuid createdAt ty queued =
     \<lparr>jobId = uuid, jtype = ty, status = Pending,
      timestamps = \<lparr>created = createdAt, started = None, completed = None\<rparr>,
      metrics = \<lparr>responseTime = None, processingTime = None,
                 concurrentJobs = Some (queued + 1)\<rparr>,
      resultPaths = [], errorMessage = None\<rparr>"

definition createJob ::
  "string \<Rightarrow> real \<Rightarrow> real \<Rightarrow> real \<Rightarrow> ReportType \<Rightarrow> ReportsService
     \<Rightarrow> (string \<times> real) \<times> ReportsService" where
  "createJob uuid responseStart createdAt responseEnd ty s =
     (let job = newJob uuid createdAt ty (length (jobQueue s));
          s1 = s\<lparr>jobs := AList.update uuid job (jobs s), jobQueue := jobQueue s @ [uuid]\<rparr>;
          currentJobCount = length (jobs s1);
          m1 = systemMetrics s1;
          s2 = s1\<lparr>systemMetrics := m1\<lparr>concurrentProcessingCapability :=
                   max (concurrentProcessingCapability m1) currentJobCount\<rparr>\<rparr>;
          rt = responseEnd - responseStart
      in ((uuid, rt), updateResponseTimeMetrics rt s2))"

section \<open>Lookups\<close>

definition getJobStatus :: "string \<Rightarrow> ReportsService \<Rightarrow> JobData option" where
  "getJobStatus jid s = map_of (jobs s) jid"

text \<open>
  \<^verbatim>\<open>getJobResult\<close>. \<open>readFile\<close> stands for \<^verbatim>\<open>fs.readFileSync(p, 'utf-8')\<close>:
  \<open>Inl msg\<close> when the read throws an error with message \<open>msg\<close>, \<open>Inr text\<close>
  otherwise. \<^verbatim>\<open>path.basename\<close> is the part after the last slash (the recorded
  paths never end in a slash).
\<close>

record ResultData =
  dataJobId :: string
  dataType :: ReportType
  dataMetrics :: JobMetrics
  results :: "(string \<times> string) list"
  dataTimestamps :: Timestamps

record JobResult =
  success :: bool
  resultData :: "ResultData option"
  error :: "string option"

definition basename :: "string \<Rightarrow> string" where
  "basename p = rev (takeWhile (\<lambda>c. c \<noteq> CHR ''/'') (rev p))"

fun readResults ::
  "(string \<Rightarrow> string + string) \<Rightarrow> string list \<Rightarrow> (string \<times> string) list
     \<Rightarrow> string + (string \<times> string) list" where
  "readResults readFile [] acc = Inr acc"
| "readResults readFile (p # ps) acc =
     (case readFile p of
        Inl msg \<Rightarrow> Inl msg
      | Inr text \<Rightarrow> readResults readFile ps (AList.update (basename p) text acc))"

definition getJobResult ::
  "(string \<Rightarrow> string + string) \<Rightarrow> string \<Rightarrow> ReportsService \<Rightarrow> JobResult" where
  "getJobResult readFile jid s =
     (case map_of (jobs s) jid of
        None \<Rightarrow> \<lparr>success = False, resultData = None, error = Some ''Job not found''\<rparr>
      | Some job \<Rightarrow>
          if status job \<noteq> Completed
          then \<lparr>success = False, resultData = None,
                error = Some (''Job status: '' @ statusName (status job))\<rparr>
          else (case readResults readFile (resultPaths job) [] of
                  Inl msg \<Rightarrow> \<lparr>success = False, resultData = None,
                              error = Some (''Failed to read results: '' @ msg)\<rparr>
                | Inr rs \<Rightarrow> \<lparr>success = True,
                             resultData = Some \<lparr>dataJobId = jobId job, dataType = jtype job,
                                                dataMetrics = metrics job, results = rs,
                                                dataTimestamps = timestamps job\<rparr>,
                             error = None\<rparr>))"

text \<open>
  \<^verbatim>\<open>getSystemMetrics\<close> returns \<^verbatim>\<open>{ ...this.systemMetrics }\<close>: the top-level fields
  are copied, the reference to the nested comparison object is copied with them. A
  caller reads the nested block of a snapshot through the store of the state in which
  it looks.
\<close>

definition getSystemMetrics :: "ReportsService \<Rightarrow> SystemMetrics" where
  "getSystemMetrics s = systemMetrics s"

definition readLegacy :: "ReportsService \<Rightarrow> SystemMetrics \<Rightarrow> LegacyComparisonData" where
  "readLegacy s snapshot = heap s (legacyComparisonData snapshot)"

definition getAllJobs :: "ReportsService \<Rightarrow> JobStatus \<Rightarrow> JobData list" where
  "getAllJobs s st = filter (\<lambda>j. status j = st) (map snd (jobs s))"

section \<open>Report generation for one job\<close>

text \<open>
  The core report routines (\<^verbatim>\<open>accountsLogic\<close>, \<^verbatim>\<open>yearlyLogic\<close>,
  \<^verbatim>\<open>fsLogic\<close>) read and write files. Each is represented by its outcome on a given
  output file: \<open>None\<close> when it returns, \<open>Some msg\<close> when it throws an error
  with message \<open>msg\<close>.
\<close>

record ReportLogic =
  accountsLogic :: "string \<Rightarrow> string option"
  yearlyLogic :: "string \<Rightarrow> string option"
  fsLogic :: "string \<Rightarrow> string option"

text \<open>
  A routine that mutates the job record and may throw returns the record as it stands
  when the routine ends, together with the error thrown (if any).
\<close>

definition generateAccountsReport :: "ReportLogic \<Rightarrow> JobData \<Rightarrow> JobData \<times> string option" where
  "generateAccountsReport lg job =
     (let outputFile = ''out/accounts_'' @ take 8 (jobId job) @ ''.csv'';
          job1 = job\<lparr>resultPaths := resultPaths job @ [outputFile]\<rparr>
      in (job1, accountsLogic lg outputFile))"

definition generateYearlyReport :: "ReportLogic \<Rightarrow> JobData \<Rightarrow> JobData \<times> string option" where
  "generateYearlyReport lg job =
     (let outputFile = ''out/yearly_'' @ take 8 (jobId job) @ ''.csv'';
          job1 = job\<lparr>resultPaths := resultPaths job @ [outputFile]\<rparr>
      in (job1, yearlyLogic lg outputFile))"

definition generateFsReport :: "ReportLogic \<Rightarrow> JobData \<Rightarrow> JobData \<times> string option" where
  "generateFsReport lg job =
     (let outputFile = ''out/fs_'' @ take 8 (jobId job) @ ''.csv'';
          job1 = job\<lparr>resultPaths := resultPaths job @ [outputFile]\<rparr>
      in (job1, fsLogic lg outputFile))"

text \<open>
  \<^verbatim>\<open>processSingleReport\<close>: the \<^verbatim>\<open>switch\<close> has no case for \<^verbatim>\<open>'all'\<close>, so the
  promise resolves with the record untouched there.
\<close>

fun processSingleReport :: "ReportLogic \<Rightarrow> JobData \<Rightarrow> ReportType \<Rightarrow> JobData \<times> string option" where
  "processSingleReport lg job Accounts = generateAccountsReport lg job"
| "processSingleReport lg job Yearly = generateYearlyReport lg job"
| "processSingleReport lg job Fs = generateFsReport lg job"
| "processSingleReport lg job All = (job, None)"

definition processAllReports :: "ReportLogic \<Rightarrow> JobData \<Rightarrow> JobData \<times> string option" where
  "processAllReports lg job =
     (case processSingleReport lg job Accounts of
        (job1, Some e) \<Rightarrow> (job1, Some e)
      | (job1, None) \<Rightarrow>
          (case processSingleReport lg job1 Yearly of
             (job2, Some e) \<Rightarrow> (job2, Some e)
           | (job2, None) \<Rightarrow> processSingleReport lg job2 Fs))"

text \<open>
  \<^verbatim>\<open>processJob\<close> in three parts: the statements before the \<^verbatim>\<open>try\<close>
  (\<open>beginJob\<close>), the report generation, and the end of the \<^verbatim>\<open>try\<close> with its
  \<^verbatim>\<open>catch\<close> and \<^verbatim>\<open>finally\<close> (\<open>endJob\<close>). When \<^verbatim>\<open>started\<close> is undefined the
  subtraction yields \<^verbatim>\<open>NaN\<close>, which later tests as false like an absent value.
\<close>

definition beginJob :: "real \<Rightarrow> JobData \<Rightarrow> JobData" where
  "beginJob startedAt job =
     job\<lparr>status := Processing, timestamps := (timestamps job)\<lparr>started := Some startedAt\<rparr>\<rparr>"

definition endJob :: "string option \<Rightarrow> real \<Rightarrow> JobData \<Rightarrow> JobData" where
  "endJob err completedAt job =
     (let job1 = (case err of
                    None \<Rightarrow> job\<lparr>status := Completed\<rparr>
                  | Some msg \<Rightarrow> job\<lparr>status := Failed, errorMessage := Some msg\<rparr>);
          ts = (timestamps job1)\<lparr>completed := Some completedAt\<rparr>
      in job1\<lparr>timestamps := ts,
              metrics := (metrics job1)\<lparr>processingTime :=
                (case started ts of None \<Rightarrow> None | Some st \<Rightarrow> Some (completedAt - st))\<rparr>\<rparr>)"

definition processJob :: "real \<Rightarrow> ReportLogic \<Rightarrow> real \<Rightarrow> JobData \<Rightarrow> JobData \<times> string option" where
  "processJob startedAt lg completedAt job =
     (let job1 = beginJob startedAt job;
          (job2, err) = (if jtype job1 = All then processAllReports lg job1
                         else processSingleReport lg job1 (jtype job1))
      in (endJob err completedAt job2, err))"

section \<open>Metrics of the worker and the retention sweep\<close>

text \<open>
  \<^verbatim>\<open>updateSystemMetrics\<close>: \<^verbatim>\<open>if (job.metrics.processingTime)\<close> is false for an
  absent value and for zero.
\<close>

definition updateSystemMetrics :: "JobData \<Rightarrow> ReportsService \<Rightarrow> ReportsService" where
  "updateSystemMetrics job s =
     (let m = systemMetrics s;
          totalJobs = totalJobsProcessed m + 1;
          avgProcessing =
            (case processingTime (metrics job) of
               None \<Rightarrow> averageProcessingTime m
             | Some p \<Rightarrow> if p = 0 then averageProcessingTime m
                         else (averageProcessingTime m * (real totalJobs - 1) + p) / real totalJobs);
          completedJobs =
            filter (\<lambda>j. status j = Completed \<or> status j = Failed) (map snd (jobs s));
          successfulJobs = filter (\<lambda>j. status j = Completed) completedJobs;
          rate = (if length completedJobs > 0
                  then real (length successfulJobs) / real (length completedJobs) * 100
                  else 0);
          currentJobCount = length (map snd (jobs s))
      in s\<lparr>systemMetrics := m\<lparr>totalJobsProcessed := totalJobs,
                                averageProcessingTime := avgProcessing,
                                successRate := rate,
                                concurrentProcessingCapability :=
                                  max (concurrentProcessingCapability m) currentJobCount\<rparr>\<rparr>)"

text \<open>
  \<^verbatim>\<open>cleanupOldJobs\<close>: \<open>now\<close> is the clock reading; the test
  \<^verbatim>\<open>job.timestamps.completed && job.timestamps.completed < oneHourAgo\<close> is false
  for an absent stamp and for the stamp zero.
\<close>

definition expired :: "real \<Rightarrow> JobData \<Rightarrow> bool" where
  "expired oneHourAgo job =
     (case completed (timestamps job) of
        None \<Rightarrow> False
      | Some c \<Rightarrow> c \<noteq> 0 \<and> c < oneHourAgo)"

definition cleanupOldJobs :: "real \<Rightarrow> ReportsService \<Rightarrow> ReportsService" where
  "cleanupOldJobs now s =
     (let oneHourAgo = now - 60 * 60 * 1000
      in s\<lparr>jobs := filter (\<lambda>(jid, job). \<not> expired oneHourAgo job) (jobs s)\<rparr>)"

section \<open>The processing loop\<close>

text \<open>
  The \<^verbatim>\<open>catch\<close> of \<^verbatim>\<open>processQueue\<close>, entered when \<^verbatim>\<open>processJob\<close> rejects.
\<close>

definition catchFailure :: "string option \<Rightarrow> real \<Rightarrow> JobData \<Rightarrow> JobData" where
  "catchFailure err caughtAt job =
     (case err of
        None \<Rightarrow> job
      | Some msg \<Rightarrow> job\<lparr>status := Failed, errorMessage := Some msg,
                        timestamps := (timestamps job)\<lparr>completed := Some caughtAt\<rparr>\<rparr>)"

text \<open>
  What one pass of the loop body needs from outside: the clock readings of
  \<^verbatim>\<open>processJob\<close> (\<open>startedAt\<close>, \<open>completedAt\<close>), of the \<^verbatim>\<open>catch\<close>
  (\<open>caughtAt\<close>) and of the sweep (\<open>sweepAt\<close>), and the outcomes of the report
  routines.
\<close>

record JobRun =
  startedAt :: real
  logic :: ReportLogic
  completedAt :: real
  caughtAt :: real
  sweepAt :: real

text \<open>
  The loop body for a record found in the registry. The worker mutates the very object
  that the registry holds under \<open>jid\<close>, so the registry entry is rewritten in place.
\<close>

definition finishJob :: "JobRun \<Rightarrow> string \<Rightarrow> JobData \<Rightarrow> ReportsService \<Rightarrow> ReportsService" where
  "finishJob r jid job s =
     (let s1 = s\<lparr>jobs := AList.update jid job (jobs s)\<rparr>;
          s2 = updateSystemMetrics job s1
      in cleanupOldJobs (sweepAt r) s2)"

definition processIteration :: "JobRun \<Rightarrow> string \<Rightarrow> JobData \<Rightarrow> ReportsService \<Rightarrow> ReportsService" where
  "processIteration r jid job s =
     (let (job1, err) = processJob (startedAt r) (logic r) (completedAt r) job;
          job2 = catchFailure err (caughtAt r) job1
      in finishJob r jid job2 s)"

text \<open>
  \<^verbatim>\<open>processQueue\<close> as one uninterrupted drain: no submission arrives while it runs,
  so the queue changes only by the loop's own \<^verbatim>\<open>shift\<close>, and the list argument of
  \<open>processLoop\<close> is the queue. \<open>env\<close> gives the outside inputs for the pass that
  processes a given identifier.
\<close>

fun processLoop :: "(string \<Rightarrow> JobRun) \<Rightarrow> string list \<Rightarrow> ReportsService \<Rightarrow> ReportsService" where
  "processLoop env [] s = s"
| "processLoop env (jid # rest) s =
     (let s0 = s\<lparr>jobQueue := rest\<rparr>
      in case map_of (jobs s0) jid of
           None \<Rightarrow> processLoop env rest s0
         | Some job \<Rightarrow> processLoop env rest (processIteration (env jid) jid job s0))"

definition processQueue :: "(string \<Rightarrow> JobRun) \<Rightarrow> ReportsService \<Rightarrow> ReportsService" where
  "processQueue env s =
     (if isProcessing s \<or> jobQueue s = [] then s
      else (processLoop env (jobQueue s) (s\<lparr>isProcessing := True\<rparr>))\<lparr>isProcessing := False\<rparr>)"

section \<open>The worker between its suspension points\<close>

text \<open>
  \<^verbatim>\<open>processQueue\<close> suspends at every \<^verbatim>\<open>await this.processSingleReport(...)\<close>, whose
  promise settles in a \<^verbatim>\<open>setImmediate\<close> callback; submissions and lookups run in
  between. The worker is either not running or waiting for the generation of the first
  kind of a list of kinds still to be produced for the job it holds.
\<close>

datatype Worker = Idle | Awaiting string "ReportType list"

fun kindsOf :: "ReportType \<Rightarrow> ReportType list" where
  "kindsOf All = [Accounts, Yearly, Fs]"
| "kindsOf k = [k]"

text \<open>
  From the loop condition to the next suspension: identifiers without a record are
  skipped, the first record found enters \<^verbatim>\<open>processJob\<close>; an empty queue ends the
  loop.
\<close>

fun loopHead :: "real \<Rightarrow> string list \<Rightarrow> ReportsService \<Rightarrow> ReportsService \<times> Worker" where
  "loopHead now [] s = (s\<lparr>jobQueue := [], isProcessing := False\<rparr>, Idle)"
| "loopHead now (jid # rest) s =
     (case map_of (jobs s) jid of
        None \<Rightarrow> loopHead now rest s
      | Some job \<Rightarrow>
          (s\<lparr>jobQueue := rest, jobs := AList.update jid (beginJob now job) (jobs s)\<rparr>,
           Awaiting jid (kindsOf (jtype job))))"

definition processQueueStart :: "real \<Rightarrow> ReportsService \<times> Worker \<Rightarrow> ReportsService \<times> Worker" where
  "processQueueStart now sw =
     (let s = fst sw
      in if isProcessing s \<or> jobQueue s = [] then sw
         else loopHead now (jobQueue s) (s\<lparr>isProcessing := True\<rparr>))"

text \<open>
  The \<^verbatim>\<open>setImmediate\<close> callback and the continuations it wakes: one report is
  generated; on success with kinds left the worker suspends again; otherwise the job is
  ended, the metrics are updated, the sweep runs and the loop goes on. The record is
  read under the identifier the worker holds (a worker without a job, or one whose
  record is gone, does nothing).
\<close>

definition genStep :: "JobRun \<Rightarrow> real \<Rightarrow> ReportsService \<times> Worker \<Rightarrow> ReportsService \<times> Worker" where
  "genStep r nextStartedAt sw =
     (let s = fst sw
      in case snd sw of
           Idle \<Rightarrow> sw
         | Awaiting jid [] \<Rightarrow> sw
         | Awaiting jid (k # ks) \<Rightarrow>
             (case map_of (jobs s) jid of
                None \<Rightarrow> sw
              | Some job \<Rightarrow>
                  (let (job1, err) = processSingleReport (logic r) job k
                   in if err = None \<and> ks \<noteq> []
                      then (s\<lparr>jobs := AList.update jid job1 (jobs s)\<rparr>, Awaiting jid ks)
                      else (let job2 = endJob err (completedAt r) job1;
                                job3 = catchFailure err (caughtAt r) job2;
                                s1 = finishJob r jid job3 s
                            in loopHead nextStartedAt (jobQueue s1) s1))))"

text \<open>
  One step of the service: a submission with an identifier not in the registry (what
  \<^verbatim>\<open>randomUUID\<close> provides), a scheduled start of the worker, or a wake-up of the
  worker.
\<close>

inductive step :: "ReportsService \<times> Worker \<Rightarrow> ReportsService \<times> Worker \<Rightarrow> bool" where
  submit: "uuid \<notin> fst ` set (jobs s)
             \<Longrightarrow> step (s, w) (snd (createJob uuid t0 t1 t2 ty s), w)"
| start: "step sw (processQueueStart t sw)"
| wake: "step sw (genStep r t sw)"

inductive reachable :: "ReportsService \<times> Worker \<Rightarrow> bool" where
  reach_init: "reachable (initialService, Idle)"
| reach_step: "reachable sw \<Longrightarrow> step sw sw' \<Longrightarrow> reachable sw'"

section \<open>The submission endpoint\<close>

text \<open>
  \<^verbatim>\<open>createReportJob\<close> of the controller. The query parameter is absent
  (\<open>None\<close>) or a string; \<^verbatim>\<open>type || REPORT_TYPES.ALL\<close> replaces an absent and an
  empty string alike. \<^verbatim>\<open>validTypes\<close> is
  \<^verbatim>\<open>['accounts', 'yearly', 'fs', 'all']\<close>. A thrown
  \<^verbatim>\<open>BadRequestException\<close> is the left summand; the state is returned beside the
  outcome.
\<close>

datatype HttpError = BadRequestException string

record CreateReportJobResponse =
  respJobId :: string
  respType :: string
  respStatus :: string
  respMessage :: string
  respResponseTime :: real
  statusUrl :: string
  resultUrl :: string

definition validTypes :: "string list" where
  "validTypes = [''accounts'', ''yearly'', ''fs'', ''all'']"

definition reportTypeOf :: "string \<Rightarrow> ReportType" where
  "reportTypeOf t =
     (if t = ''accounts'' then Accounts
      else if t = ''yearly'' then Yearly
      else if t = ''fs'' then Fs
      else All)"

definition createReportJob ::
  "string option \<Rightarrow> string \<Rightarrow> real \<Rightarrow> real \<Rightarrow> real \<Rightarrow> ReportsService
     \<Rightarrow> (HttpError + CreateReportJobResponse) \<times> ReportsService" where
  "createReportJob type uuid responseStart createdAt responseEnd s =
     (let reportType = (case type of
                          None \<Rightarrow> ''all''
                        | Some t \<Rightarrow> if t = [] then ''all'' else t)
      in if reportType \<notin> set validTypes
         then (Inl (BadRequestException
                 (''Invalid report type. Valid types: accounts, yearly, fs, all'')), s)
         else (let (res, s1) = createJob uuid responseStart createdAt responseEnd
                                 (reportTypeOf reportType) s
               in (Inr \<lparr>respJobId = fst res, respType = reportType, respStatus = ''pending'',
                        respMessage = ''Report job created successfully'',
                        respResponseTime = snd res,
                        statusUrl = ''/api/v1/reports/status/'' @ fst res,
                        resultUrl = ''/api/v1/reports/result/'' @ fst res\<rparr>, s1)))"

section \<open>Invariant of the registry and lawful status moves\<close>

text \<open>
  The registry has distinct keys, the queue has distinct entries, every queued
  identifier has a pending record, and a record that is pending or processing has no
  completion stamp. A waiting worker holds a processing record that is not queued.
\<close>

definition registryInv :: "(string \<times> JobData) list \<Rightarrow> string list \<Rightarrow> bool" where
  "registryInv reg q \<longleftrightarrow>
     distinct (map fst reg) \<and> distinct q
     \<and> (\<forall>jid\<in>set q. \<exists>job. map_of reg jid = Some job \<and> status job = Pending)
     \<and> (\<forall>jid job. map_of reg jid = Some job \<longrightarrow>
           status job = Pending \<or> status job = Processing \<longrightarrow>
           completed (timestamps job) = None)"

definition workerInv :: "(string \<times> JobData) list \<Rightarrow> string list \<Rightarrow> Worker \<Rightarrow> bool" where
  "workerInv reg q w \<longleftrightarrow>
     (case w of
        Idle \<Rightarrow> True
      | Awaiting jid ks \<Rightarrow>
          jid \<notin> set q \<and> (\<exists>job. map_of reg jid = Some job \<and> status job = Processing))"

definition serviceInv :: "ReportsService \<times> Worker \<Rightarrow> bool" where
  "serviceInv sw \<longleftrightarrow>
     registryInv (jobs (fst sw)) (jobQueue (fst sw))
     \<and> workerInv (jobs (fst sw)) (jobQueue (fst sw)) (snd sw)"

text \<open>
  In one step a status stays, goes from pending to processing, or goes from processing
  to completed or failed. \<open>lawful\<close> compares two registries: a record of the first
  is either gone from the second, and was not pending, or is there with a status
  reached by such a move, and unchanged altogether if it was completed or failed.
\<close>

definition statusMove :: "JobStatus \<Rightarrow> JobStatus \<Rightarrow> bool" where
  "statusMove a b \<longleftrightarrow>
     b = a \<or> (a = Pending \<and> b = Processing)
     \<or> (a = Processing \<and> (b = Completed \<or> b = Failed))"

definition terminal :: "JobStatus \<Rightarrow> bool" where
  "terminal st \<longleftrightarrow> st = Completed \<or> st = Failed"

definition lawful :: "(string \<times> JobData) list \<Rightarrow> (string \<times> JobData) list \<Rightarrow> bool" where
  "lawful reg reg' \<longleftrightarrow>
     (\<forall>jid job. map_of reg jid = Some job \<longrightarrow>
        (case map_of reg' jid of
           None \<Rightarrow> status job \<noteq> Pending
         | Some job' \<Rightarrow> statusMove (status job) (status job')
                        \<and> (terminal (status job) \<longrightarrow> job' = job)))"

section \<open>Submissions followed by a drain\<close>

text \<open>
  The inputs of one \<open>createJob\<close> call, and a sequence of such calls.
\<close>

record Submission =
  subId :: string
  subStart :: real
  subCreated :: real
  subEnd :: real
  subType :: ReportType

fun submitAll :: "Submission list \<Rightarrow> ReportsService \<Rightarrow> ReportsService" where
  "submitAll [] s = s"
| "submitAll (b # bs) s =
     submitAll bs (snd (createJob (subId b) (subStart b) (subCreated b) (subEnd b) (subType b) s))"

text \<open>
  The ratio of the claim about the success rate, over a set of records: completed
  records among the completed and failed ones, as a percentage (zero when there are
  none).
\<close>

definition rateOver :: "(string \<times> JobData) list \<Rightarrow> real" where
  "rateOver reg =
     (let done = filter (\<lambda>j. terminal (status j)) (map snd reg)
      in if done = [] then 0
         else real (length (filter (\<lambda>j. status j = Completed) done)) / real (length done) * 100)"

text \<open>
  The record that one pass of the loop leaves for a job, and whether the report
  generation of that pass succeeds.
\<close>

definition passResult :: "JobRun \<Rightarrow> JobData \<Rightarrow> JobData" where
  "passResult r job =
     catchFailure (snd (processJob (startedAt r) (logic r) (completedAt r) job)) (caughtAt r)
       (fst (processJob (startedAt r) (logic r) (completedAt r) job))"

definition runSucceeds :: "JobRun \<Rightarrow> JobData \<Rightarrow> bool" where
  "runSucceeds r job \<longleftrightarrow> snd (processJob (startedAt r) (logic r) (completedAt r) job) = None"

text \<open>
  \<open>settle\<close> replaces the record of every identifier of \<open>q\<close> by the result of its
  pass. \<open>noEviction\<close> says that no sweep of the drain finds a completion stamp of the
  drain older than one hour.
\<close>

definition settle :: "(string \<Rightarrow> JobRun) \<Rightarrow> string list \<Rightarrow> (string \<times> JobData) list
    \<Rightarrow> (string \<times> JobData) list" where
  "settle env q reg =
     map (\<lambda>(k, j). if k \<in> set q then (k, passResult (env k) j) else (k, j)) reg"

definition noEviction :: "(string \<Rightarrow> JobRun) \<Rightarrow> string set \<Rightarrow> bool" where
  "noEviction env ids \<longleftrightarrow>
     (\<forall>u\<in>ids. \<forall>v\<in>ids.
        sweepAt (env v) - 60 * 60 * 1000 \<le> completedAt (env u)
        \<and> sweepAt (env v) - 60 * 60 * 1000 \<le> caughtAt (env u))"

text \<open>
  The registry that the last metrics update of a drain reads: the registry left by the
  passes for all queued identifiers but the last, with the record of the last identifier
  replaced by the result of its pass.
\<close>

definition lastUpdateRegistry :: "(string \<Rightarrow> JobRun) \<Rightarrow> ReportsService \<Rightarrow> (string \<times> JobData) list" where
  "lastUpdateRegistry env s =
     (let jid = last (jobQueue s);
          before = processLoop env (butlast (jobQueue s)) (s\<lparr>isProcessing := True\<rparr>)
      in case map_of (jobs before) jid of
           None \<Rightarrow> jobs before
         | Some job \<Rightarrow> AList.update jid (passResult (env jid) job) (jobs before))"

section \<open>Example inputs\<close>

text \<open>Report routines that all return, and routines of which the yearly one throws.\<close>

definition allSucceed :: ReportLogic where
  "allSucceed = \<lparr>accountsLogic = (\<lambda>_. None), yearlyLogic = (\<lambda>_. None), fsLogic = (\<lambda>_. None)\<rparr>"

definition yearlyFails :: ReportLogic where
  "yearlyFails = \<lparr>accountsLogic = (\<lambda>_. None),
                   yearlyLogic = (\<lambda>_. Some ''Directory not found''), fsLogic = (\<lambda>_. None)\<rparr>"

definition accountsFails :: ReportLogic where
  "accountsFails = \<lparr>accountsLogic = (\<lambda>_. Some ''Directory not found''),
                     yearlyLogic = (\<lambda>_. None), fsLogic = (\<lambda>_. None)\<rparr>"


text \<open>
  A run of the service: one accounts job is submitted, the worker starts, the report is
  generated and the job ends, and a second job is submitted.
\<close>

definition exampleRun :: JobRun where
  "exampleRun = \<lparr>startedAt = 20, logic = allSucceed, completedAt = 30, caughtAt = 31, sweepAt = 32\<rparr>"

definition exampleSubmitted :: "ReportsService \<times> Worker" where
  "exampleSubmitted = (snd (createJob ''0a1b2c3d-0000'' 10 11 12 Accounts initialService), Idle)"

definition exampleStarted :: "ReportsService \<times> Worker" where
  "exampleStarted = processQueueStart 20 exampleSubmitted"

definition exampleFinished :: "ReportsService \<times> Worker" where
  "exampleFinished = genStep exampleRun 40 exampleStarted"

definition exampleResubmitted :: "ReportsService \<times> Worker" where
  "exampleResubmitted =
     (snd (createJob ''1b2c3d4e-0000'' 50 51 52 Fs (fst exampleFinished)), snd exampleFinished)"

text \<open>
  Three accounts jobs submitted to a fresh service, and three sets of outside inputs for
  their passes: \<open>slowRuns\<close>, where the second job fails and the passes are more than
  an hour apart; \<open>quickRuns\<close>, where the second job fails and all passes fall within
  the hour; \<open>steadyRuns\<close>, where all succeed.
\<close>

definition threeSubs :: "Submission list" where
  "threeSubs =
     [\<lparr>subId = ''0a1b2c3d-0000'', subStart = 10, subCreated = 11, subEnd = 12, subType = Accounts\<rparr>,
      \<lparr>subId = ''1b2c3d4e-0000'', subStart = 13, subCreated = 14, subEnd = 15, subType = Accounts\<rparr>,
      \<lparr>subId = ''2c3d4e5f-0000'', subStart = 16, subCreated = 17, subEnd = 18, subType = Accounts\<rparr>]"

definition threeSubmitted :: ReportsService where
  "threeSubmitted = submitAll threeSubs initialService"

definition quickRuns :: "string \<Rightarrow> JobRun" where
  "quickRuns jid =
     \<lparr>startedAt = 20,
      logic = (if jid = ''1b2c3d4e-0000'' then accountsFails else allSucceed),
      completedAt = 30, caughtAt = 31, sweepAt = 32\<rparr>"

definition steadyRuns :: "string \<Rightarrow> JobRun" where
  "steadyRuns jid =
     \<lparr>startedAt = 20, logic = allSucceed, completedAt = 30, caughtAt = 31, sweepAt = 32\<rparr>"

definition slowRuns :: "string \<Rightarrow> JobRun" where
  "slowRuns jid =
     (if jid = ''0a1b2c3d-0000''
      then \<lparr>startedAt = 20, logic = allSucceed, completedAt = 30, caughtAt = 31, sweepAt = 32\<rparr>
      else if jid = ''1b2c3d4e-0000''
      then \<lparr>startedAt = 40, logic = accountsFails, completedAt = 3600050, caughtAt = 3600051,
            sweepAt = 3600052\<rparr>
      else \<lparr>startedAt = 3600060, logic = allSucceed, completedAt = 7200100, caughtAt = 7200101,
            sweepAt = 7200102\<rparr>)"

section \<open>Basic facts about the operations\<close>

lemma createJob_jobs:
  "jobs (snd (createJob uuid t0 t1 t2 ty s)) =
     AList.update uuid (newJob uuid t1 ty (length (jobQueue s))) (jobs s)"
  by (simp add: createJob_def updateResponseTimeMetrics_def Let_def)

lemma createJob_jobQueue:
  "jobQueue (snd (createJob uuid t0 t1 t2 ty s)) = jobQueue s @ [uuid]"
  by (simp add: createJob_def updateResponseTimeMetrics_def Let_def)

lemma createJob_isProcessing:
  "isProcessing (snd (createJob uuid t0 t1 t2 ty s)) = isProcessing s"
  by (simp add: createJob_def updateResponseTimeMetrics_def Let_def)

lemma createJob_result: "fst (createJob uuid t0 t1 t2 ty s) = (uuid, t2 - t0)"
  by (simp add: createJob_def Let_def)

section \<open>Lookups of jobs that are not ready or not there\<close>

text \<open>
  Claim C5. The result of a job that is in the registry but not \<open>completed\<close> is
  refused with the message \<open>Job status: \<close> followed by the name of the status the job
  has, and different statuses have different names. For an identifier with no record
  the status lookup returns nothing and the result lookup is refused with
  \<open>Job not found\<close>, a message that no status message equals.
\<close>

theorem getJobResult_unavailable:
  "(map_of (jobs s) jid = Some job \<longrightarrow> status job \<noteq> Completed \<longrightarrow>
      getJobResult readFile jid s =
        \<lparr>success = False, resultData = None,
         error = Some (''Job status: '' @ statusName (status job))\<rparr>)
   \<and> (map_of (jobs s) jid = None \<longrightarrow>
        getJobStatus jid s = None
        \<and> getJobResult readFile jid s =
            \<lparr>success = False, resultData = None, error = Some ''Job not found''\<rparr>)
   \<and> ''Job not found'' \<noteq> ''Job status: '' @ statusName st
   \<and> (statusName st = statusName st' \<longrightarrow> st = st')"
  by (cases st; cases st') (simp_all add: getJobResult_def getJobStatus_def)

theorem getJobResult_unavailable_witness:
  "getJobResult (\<lambda>p. Inr []) ''0a1b2c3d-0000''
      (snd (createJob ''0a1b2c3d-0000'' 10 11 12 Accounts initialService))
     = \<lparr>success = False, resultData = None, error = Some ''Job status: pending''\<rparr>
   \<and> getJobStatus ''ffffffff-0000''
      (snd (createJob ''0a1b2c3d-0000'' 10 11 12 Accounts initialService)) = None
   \<and> getJobResult (\<lambda>p. Inr []) ''ffffffff-0000''
      (snd (createJob ''0a1b2c3d-0000'' 10 11 12 Accounts initialService))
     = \<lparr>success = False, resultData = None, error = Some ''Job not found''\<rparr>"
  using getJobResult_unavailable
          [of "snd (createJob ''0a1b2c3d-0000'' 10 11 12 Accounts initialService)"
              "''0a1b2c3d-0000''" "newJob ''0a1b2c3d-0000'' 11 Accounts 0" "\<lambda>p. Inr []"
              Pending Pending]
        getJobResult_unavailable
          [of "snd (createJob ''0a1b2c3d-0000'' 10 11 12 Accounts initialService)"
              "''ffffffff-0000''" "newJob ''0a1b2c3d-0000'' 11 Accounts 0" "\<lambda>p. Inr []"
              Pending Pending]
  by (simp add: createJob_jobs initialService_def newJob_def)

section \<open>The submission endpoint and the kind parameter\<close>

text \<open>
  Claim C10. A request without the kind parameter is not refused: the endpoint answers
  with the kind \<open>all\<close>, and the state is the one that \<open>createJob\<close> leaves for the kind
  \<open>All\<close>, with a pending record of that kind under the new identifier and the
  identifier at the end of the queue.
\<close>

theorem createReportJob_omitted_kind:
  "fst (createReportJob None uuid t0 t1 t2 s) =
     Inr \<lparr>respJobId = uuid, respType = ''all'', respStatus = ''pending'',
          respMessage = ''Report job created successfully'', respResponseTime = t2 - t0,
          statusUrl = ''/api/v1/reports/status/'' @ uuid,
          resultUrl = ''/api/v1/reports/result/'' @ uuid\<rparr>
   \<and> snd (createReportJob None uuid t0 t1 t2 s) = snd (createJob uuid t0 t1 t2 All s)
   \<and> getJobStatus uuid (snd (createReportJob None uuid t0 t1 t2 s)) =
       Some (newJob uuid t1 All (length (jobQueue s)))
   \<and> jtype (newJob uuid t1 All (length (jobQueue s))) = All
   \<and> status (newJob uuid t1 All (length (jobQueue s))) = Pending
   \<and> jobQueue (snd (createReportJob None uuid t0 t1 t2 s)) = jobQueue s @ [uuid]"
  by (simp add: createReportJob_def validTypes_def reportTypeOf_def split_beta
      createJob_result createJob_jobs createJob_jobQueue getJobStatus_def update_conv' newJob_def)

text \<open>
  Claim C6, as stated, fails for the empty kind string: it is outside the set of
  kinds, yet the endpoint treats it like an absent parameter and creates a job.
\<close>

theorem createReportJob_empty_kind_counterexample:
  "[] \<notin> set validTypes
   \<and> \<not> isl (fst (createReportJob (Some []) ''0a1b2c3d-0000'' 10 11 12 initialService))
   \<and> map fst (jobs (snd (createReportJob (Some []) ''0a1b2c3d-0000'' 10 11 12 initialService)))
       = [''0a1b2c3d-0000'']
   \<and> jobQueue (snd (createReportJob (Some []) ''0a1b2c3d-0000'' 10 11 12 initialService))
       = [''0a1b2c3d-0000'']
   \<and> jobs initialService = [] \<and> jobQueue initialService = []"
  by (simp add: createReportJob_def validTypes_def reportTypeOf_def split_beta
      createJob_jobs createJob_jobQueue initialService_def)

text \<open>
  Claim C6, amended. Every non-empty kind string outside the set of kinds is refused
  with the invalid-type error, and the whole service state (registry, queue, metrics)
  is returned as it was.
\<close>

theorem createReportJob_invalid_kind:
  assumes "t \<noteq> []" and "t \<notin> set validTypes"
  shows "createReportJob (Some t) uuid t0 t1 t2 s =
           (Inl (BadRequestException
              ''Invalid report type. Valid types: accounts, yearly, fs, all''), s)"
  using assms by (simp add: createReportJob_def)

theorem createReportJob_invalid_kind_witness:
  "createReportJob (Some ''monthly'') ''0a1b2c3d-0000'' 10 11 12 initialService =
     (Inl (BadRequestException
        ''Invalid report type. Valid types: accounts, yearly, fs, all''), initialService)"
  using createReportJob_invalid_kind [of "''monthly''" "''0a1b2c3d-0000''" 10 11 12 initialService]
  by (simp add: validTypes_def)

section \<open>The retention sweep\<close>

lemma registry_filter_lookup:
  assumes "distinct (map fst reg)"
  shows "map_of (filter (\<lambda>(jid, job). keep job) reg) j =
           Option.bind (map_of reg j) (\<lambda>job. if keep job then Some job else None)"
  using assms
proof (induction reg)
  case Nil
  show ?case by simp
next
  case (Cons entry reg)
  obtain jid job where entry: "entry = (jid, job)" by (cases entry)
  from Cons.prems have "jid \<notin> fst ` set reg" by (simp add: entry)
  then have absent: "map_of reg jid = None" by (simp add: map_of_eq_None_iff)
  from Cons.prems have "distinct (map fst reg)" by simp
  from Cons.IH [OF this] absent show ?case by (cases "j = jid") (simp_all add: entry)
qed




section \<open>Jobs of the composite kind\<close>

text \<open>
  Claim C8. For a job of kind \<open>all\<close>, \<open>processJob\<close> (followed by the \<open>catch\<close> of the
  loop) runs the accounts, yearly and fs routines in this order on the one record. If
  all three return, the record is completed, the three output paths are appended in
  that order and the processing time is the one span from start to completion. If a
  routine throws, the record is failed with that error's message, and only the paths of
  the routines run so far have been appended: the later routines are not run.
\<close>

theorem processJob_all:
  fixes job :: JobData and lg :: ReportLogic and st ct ca :: real
  defines "pa \<equiv> ''out/accounts_'' @ take 8 (jobId job) @ ''.csv''"
    and "py \<equiv> ''out/yearly_'' @ take 8 (jobId job) @ ''.csv''"
    and "pf \<equiv> ''out/fs_'' @ take 8 (jobId job) @ ''.csv''"
    and "res \<equiv> processJob st lg ct job"
  defines "final \<equiv> catchFailure (snd res) ca (fst res)"
  assumes all: "jtype job = All"
  shows "(accountsLogic lg pa = None \<and> yearlyLogic lg py = None \<and> fsLogic lg pf = None \<longrightarrow>
            snd res = None \<and> status final = Completed
            \<and> resultPaths final = resultPaths job @ [pa, py, pf]
            \<and> processingTime (metrics final) = Some (ct - st))
       \<and> (\<forall>e. accountsLogic lg pa = Some e \<longrightarrow>
            snd res = Some e \<and> status final = Failed \<and> errorMessage final = Some e
            \<and> resultPaths final = resultPaths job @ [pa]
            \<and> processingTime (metrics final) = Some (ct - st))
       \<and> (\<forall>e. accountsLogic lg pa = None \<and> yearlyLogic lg py = Some e \<longrightarrow>
            snd res = Some e \<and> status final = Failed \<and> errorMessage final = Some e
            \<and> resultPaths final = resultPaths job @ [pa, py]
            \<and> processingTime (metrics final) = Some (ct - st))
       \<and> (\<forall>e. accountsLogic lg pa = None \<and> yearlyLogic lg py = None \<and> fsLogic lg pf = Some e \<longrightarrow>
            snd res = Some e \<and> status final = Failed \<and> errorMessage final = Some e
            \<and> resultPaths final = resultPaths job @ [pa, py, pf]
            \<and> processingTime (metrics final) = Some (ct - st))"
  unfolding final_def res_def pa_def py_def pf_def using all
  by (auto simp: processJob_def processAllReports_def generateAccountsReport_def
      generateYearlyReport_def generateFsReport_def beginJob_def endJob_def catchFailure_def
      Let_def split: option.splits prod.splits)

theorem processJob_all_witness:
  "status (catchFailure (snd (processJob 20 allSucceed 30 (newJob ''0a1b2c3d-0000'' 10 All 0))) 31
            (fst (processJob 20 allSucceed 30 (newJob ''0a1b2c3d-0000'' 10 All 0)))) = Completed
   \<and> resultPaths (catchFailure (snd (processJob 20 allSucceed 30 (newJob ''0a1b2c3d-0000'' 10 All 0))) 31
            (fst (processJob 20 allSucceed 30 (newJob ''0a1b2c3d-0000'' 10 All 0))))
       = [''out/accounts_0a1b2c3d.csv'', ''out/yearly_0a1b2c3d.csv'', ''out/fs_0a1b2c3d.csv'']
   \<and> processingTime (metrics (catchFailure (snd (processJob 20 allSucceed 30 (newJob ''0a1b2c3d-0000'' 10 All 0))) 31
            (fst (processJob 20 allSucceed 30 (newJob ''0a1b2c3d-0000'' 10 All 0))))) = Some 10
   \<and> status (catchFailure (snd (processJob 20 yearlyFails 30 (newJob ''0a1b2c3d-0000'' 10 All 0))) 31
            (fst (processJob 20 yearlyFails 30 (newJob ''0a1b2c3d-0000'' 10 All 0)))) = Failed
   \<and> errorMessage (catchFailure (snd (processJob 20 yearlyFails 30 (newJob ''0a1b2c3d-0000'' 10 All 0))) 31
            (fst (processJob 20 yearlyFails 30 (newJob ''0a1b2c3d-0000'' 10 All 0))))
       = Some ''Directory not found''
   \<and> resultPaths (catchFailure (snd (processJob 20 yearlyFails 30 (newJob ''0a1b2c3d-0000'' 10 All 0))) 31
            (fst (processJob 20 yearlyFails 30 (newJob ''0a1b2c3d-0000'' 10 All 0))))
       = [''out/accounts_0a1b2c3d.csv'', ''out/yearly_0a1b2c3d.csv'']"
  using processJob_all [of "newJob ''0a1b2c3d-0000'' 10 All 0" allSucceed 20 30 31]
        processJob_all [of "newJob ''0a1b2c3d-0000'' 10 All 0" yearlyFails 20 30 31]
  by (auto simp: newJob_def allSucceed_def yearlyFails_def)

section \<open>Result paths of failed jobs\<close>

text \<open>
  Whatever the outcome, \<open>processJob\<close> leaves at least one result path on the record:
  the first generate routine records its output path before anything can fail.
\<close>

lemma processSingleReport_paths:
  "k \<noteq> All \<Longrightarrow> resultPaths (fst (processSingleReport lg job k)) \<noteq> []"
  by (cases k) (simp_all add: generateAccountsReport_def generateYearlyReport_def
      generateFsReport_def Let_def)

lemma processJob_result_paths: "resultPaths (fst (processJob st lg ct job)) \<noteq> []"
  by (cases "jtype job")
     (auto simp: processJob_def processAllReports_def generateAccountsReport_def
        generateYearlyReport_def generateFsReport_def beginJob_def endJob_def Let_def
        split: option.splits prod.splits)

text \<open>
  Claim C1 does not hold of the code: each generate routine records the output path
  before it runs the report routine. An accounts job whose report routine throws is
  failed and keeps one result path.
\<close>

theorem failed_job_keeps_result_path:
  "map_option (\<lambda>j. (status j, errorMessage j, resultPaths j))
     (getJobStatus ''0a1b2c3d-0000''
        (processQueue
           (\<lambda>_. \<lparr>startedAt = 20, logic = accountsFails,
                  completedAt = 30, caughtAt = 31, sweepAt = 32\<rparr>)
           (snd (createJob ''0a1b2c3d-0000'' 10 11 12 Accounts initialService))))
   = Some (Failed, Some ''Directory not found'', [''out/accounts_0a1b2c3d.csv''])"
  by (simp add: processQueue_def createJob_def updateResponseTimeMetrics_def newJob_def
      initialService_def processIteration_def processJob_def beginJob_def endJob_def
      generateAccountsReport_def catchFailure_def finishJob_def updateSystemMetrics_def
      cleanupOldJobs_def expired_def getJobStatus_def accountsFails_def Let_def)

section \<open>The running average of the submission latency\<close>

text \<open>
  Claim C2 does not hold of the code: the divisor of the recurrence is the number of
  jobs processed (or one), not the number of latencies recorded. Two submissions with
  latencies 1 and 3 before any job is processed leave the average at 3; the mean is 2.
\<close>

theorem response_average_is_last_sample:
  "averageResponseTime (systemMetrics
     (snd (createJob ''1b2c3d4e-0000'' 20 21 23 Yearly
        (snd (createJob ''0a1b2c3d-0000'' 10 11 11 Accounts initialService))))) = 3
   \<and> ((11 - 10) + (23 - 20)) / 2 = (2::real)"
  by (simp add: createJob_def updateResponseTimeMetrics_def initialService_def Let_def)

section \<open>Snapshots of the metrics\<close>

text \<open>
  Claim C3 does not hold of the code: the snapshot is a shallow copy. A snapshot taken
  of the initial service reads 0 for the asynchronous average and \<open>0%\<close> for the
  improvement in its nested comparison block; after one submission with latency 10 the
  same snapshot reads 10 and \<open>99.9%\<close> there. The top-level fields of the snapshot are values of
  their own.
\<close>

theorem snapshot_shares_legacy_block:
  "avgAsyncResponseTime (readLegacy initialService (getSystemMetrics initialService)) = 0
   \<and> avgAsyncResponseTime
        (readLegacy (snd (createJob ''0a1b2c3d-0000'' 10 11 20 Accounts initialService))
           (getSystemMetrics initialService)) = 10
   \<and> performanceImprovement (readLegacy initialService (getSystemMetrics initialService)) = ''0%''
   \<and> performanceImprovement
        (readLegacy (snd (createJob ''0a1b2c3d-0000'' 10 11 20 Accounts initialService))
           (getSystemMetrics initialService)) = ''99.9%''
   \<and> averageResponseTime (getSystemMetrics initialService) = 0"
  by (simp add: createJob_def updateResponseTimeMetrics_def initialService_def Let_def
      readLegacy_def getSystemMetrics_def initialLegacy_def toFixed1_def decimal.simps)

section \<open>The job state machine\<close>

lemma serviceInv_initial: "serviceInv (initialService, Idle)"
  by (simp add: serviceInv_def registryInv_def workerInv_def initialService_def)

lemma registryInv_submit:
  assumes inv: "registryInv reg q" and fresh: "uuid \<notin> fst ` set reg"
  shows "registryInv (AList.update uuid (newJob uuid t ty n) reg) (q @ [uuid])"
proof -
  from fresh have none: "map_of reg uuid = None" by (simp add: map_of_eq_None_iff)
  with inv have notq: "uuid \<notin> set q" by (auto simp: registryInv_def)
  show ?thesis
    using inv none notq
    by (auto simp: registryInv_def distinct_update update_conv' newJob_def)
qed

lemma workerInv_submit:
  assumes "workerInv reg q w" and fresh: "uuid \<notin> fst ` set reg"
  shows "workerInv (AList.update uuid job reg) (q @ [uuid]) w"
proof -
  from fresh have none: "map_of reg uuid = None" by (simp add: map_of_eq_None_iff)
  with assms(1) show ?thesis
    by (cases w) (auto simp: workerInv_def update_conv')
qed

lemma lawful_submit:
  assumes fresh: "uuid \<notin> fst ` set reg"
  shows "lawful reg (AList.update uuid job reg)"
proof -
  from fresh have none: "map_of reg uuid = None" by (simp add: map_of_eq_None_iff)
  then show ?thesis
    by (auto simp: lawful_def update_conv' statusMove_def)
qed

lemma lawful_refl: "lawful reg reg"
  by (simp add: lawful_def statusMove_def)

lemma loopHead_inv:
  assumes "registryInv (jobs s) q"
  shows "serviceInv (loopHead t q s) \<and> lawful (jobs s) (jobs (fst (loopHead t q s)))"
proof (cases q)
  case Nil
  with assms show ?thesis
    by (simp add: serviceInv_def registryInv_def workerInv_def lawful_refl)
next
  case (Cons jid rest)
  with assms obtain job where job: "map_of (jobs s) jid = Some job" "status job = Pending"
    by (auto simp: registryInv_def)
  from assms Cons have notrest: "jid \<notin> set rest" by (simp add: registryInv_def)
  have eq: "loopHead t q s =
              (s\<lparr>jobQueue := rest, jobs := AList.update jid (beginJob t job) (jobs s)\<rparr>,
               Awaiting jid (kindsOf (jtype job)))"
    by (simp add: Cons job)
  have inv: "registryInv (AList.update jid (beginJob t job) (jobs s)) rest"
    using assms Cons job notrest
    by (auto simp: registryInv_def distinct_update update_conv' beginJob_def)
  have w: "workerInv (AList.update jid (beginJob t job) (jobs s)) rest
             (Awaiting jid (kindsOf (jtype job)))"
    using notrest by (simp add: workerInv_def update_conv' beginJob_def)
  have l: "lawful (jobs s) (AList.update jid (beginJob t job) (jobs s))"
    using job by (auto simp: lawful_def update_conv' statusMove_def beginJob_def terminal_def)
  show ?thesis using inv w l by (simp add: eq serviceInv_def)
qed


lemma updateSystemMetrics_jobs: "jobs (updateSystemMetrics job s) = jobs s"
  and updateSystemMetrics_jobQueue: "jobQueue (updateSystemMetrics job s) = jobQueue s"
  by (simp_all add: updateSystemMetrics_def Let_def)

lemma finishJob_jobQueue: "jobQueue (finishJob r jid job s) = jobQueue s"
  by (simp add: finishJob_def cleanupOldJobs_def updateSystemMetrics_jobQueue Let_def)

lemma finishJob_jobs:
  "jobs (finishJob r jid job s) =
     filter (\<lambda>(j, jb). \<not> expired (sweepAt r - 3600000) jb) (AList.update jid job (jobs s))"
  by (simp add: finishJob_def cleanupOldJobs_def updateSystemMetrics_jobs Let_def)

lemma finishJob_lookup:
  assumes "distinct (map fst (jobs s))"
  shows "map_of (jobs (finishJob r jid job s)) x =
           Option.bind (((map_of (jobs s))(jid \<mapsto> job)) x)
             (\<lambda>jb. if \<not> expired (sweepAt r - 3600000) jb then Some jb else None)"
  using registry_filter_lookup [OF distinct_update [OF assms], of "\<lambda>jb. \<not> expired (sweepAt r - 3600000) jb" jid job x]
  by (simp add: finishJob_jobs update_conv')

lemma finishJob_distinct:
  "distinct (map fst (jobs s)) \<Longrightarrow> distinct (map fst (jobs (finishJob r jid job s)))"
  by (simp add: finishJob_jobs distinct_map_filter distinct_update)

lemma expired_completed: "expired h job \<Longrightarrow> completed (timestamps job) \<noteq> None"
  by (auto simp: expired_def split: option.splits)

lemma finishJob_registryInv:
  assumes inv: "registryInv (jobs s) q" and notq: "jid \<notin> set q"
    and fin: "terminal (status job)"
  shows "registryInv (jobs (finishJob r jid job s)) q"
proof -
  from inv have d: "distinct (map fst (jobs s))" by (simp add: registryInv_def)
  have look: "\<And>x. map_of (jobs (finishJob r jid job s)) x =
           Option.bind (((map_of (jobs s))(jid \<mapsto> job)) x)
             (\<lambda>jb. if \<not> expired (sweepAt r - 3600000) jb then Some jb else None)"
    by (rule finishJob_lookup [OF d])
  have q: "\<forall>x\<in>set q. \<exists>jb. map_of (jobs (finishJob r jid job s)) x = Some jb \<and> status jb = Pending"
  proof
    fix x assume x: "x \<in> set q"
    with inv obtain jb where jb: "map_of (jobs s) x = Some jb" "status jb = Pending"
      by (auto simp: registryInv_def)
    with inv have "completed (timestamps jb) = None" by (auto simp: registryInv_def)
    then have "\<not> expired (sweepAt r - 3600000) jb" by (auto dest: expired_completed)
    moreover from x notq have "x \<noteq> jid" by auto
    ultimately show "\<exists>jb. map_of (jobs (finishJob r jid job s)) x = Some jb \<and> status jb = Pending"
      using jb by (simp add: look)
  qed
  have open_jobs: "\<forall>x jb. map_of (jobs (finishJob r jid job s)) x = Some jb \<longrightarrow>
           status jb = Pending \<or> status jb = Processing \<longrightarrow> completed (timestamps jb) = None"
  proof (intro allI impI)
    fix x jb
    assume a: "map_of (jobs (finishJob r jid job s)) x = Some jb"
      and st: "status jb = Pending \<or> status jb = Processing"
    show "completed (timestamps jb) = None"
    proof (cases "x = jid")
      case True
      with a have "jb = job" by (simp add: look split: if_splits)
      with fin st show ?thesis by (auto simp: terminal_def)
    next
      case False
      with a have "map_of (jobs s) x = Some jb"
        by (auto simp: look split: if_splits bind_splits)
      with inv st show ?thesis by (auto simp: registryInv_def)
    qed
  qed
  from inv have "distinct q" by (simp add: registryInv_def)
  with q open_jobs finishJob_distinct [OF d] show ?thesis
    by (simp add: registryInv_def)
qed


lemma loopHead_shape:
  assumes "registryInv (jobs s) q"
  shows "map_of (jobs (fst (loopHead t q s))) x = map_of (jobs s) x
         \<or> (x \<in> set q \<and> (\<exists>job. map_of (jobs s) x = Some job \<and> status job = Pending
               \<and> map_of (jobs (fst (loopHead t q s))) x = Some (beginJob t job)))"
proof (cases q)
  case Nil
  then show ?thesis by simp
next
  case (Cons jid rest)
  with assms obtain job where job: "map_of (jobs s) jid = Some job" "status job = Pending"
    by (auto simp: registryInv_def)
  then show ?thesis by (simp add: Cons update_conv')
qed

lemma processSingleReport_keeps:
  "status (fst (processSingleReport lg job k)) = status job"
  "timestamps (fst (processSingleReport lg job k)) = timestamps job"
  by (cases k; simp add: generateAccountsReport_def generateYearlyReport_def
        generateFsReport_def Let_def)+

lemma endJob_terminal: "terminal (status (catchFailure err ca (endJob err ct job)))"
  by (cases err) (simp_all add: catchFailure_def endJob_def terminal_def Let_def)

lemma wake_finish:
  assumes inv: "registryInv (jobs s) (jobQueue s)"
    and notq: "jid \<notin> set (jobQueue s)"
    and job: "map_of (jobs s) jid = Some job" "status job = Processing"
    and fin: "terminal (status job3)"
  shows "serviceInv (loopHead t (jobQueue (finishJob r jid job3 s)) (finishJob r jid job3 s))
         \<and> lawful (jobs s)
             (jobs (fst (loopHead t (jobQueue (finishJob r jid job3 s)) (finishJob r jid job3 s))))"
proof -
  define s1 where "s1 = finishJob r jid job3 s"
  from inv have d: "distinct (map fst (jobs s))" by (simp add: registryInv_def)
  have q1: "jobQueue s1 = jobQueue s" by (simp add: s1_def finishJob_jobQueue)
  have inv1: "registryInv (jobs s1) (jobQueue s1)"
    using finishJob_registryInv [OF inv notq fin, of r] by (simp add: s1_def finishJob_jobQueue)
  have look: "\<And>x. map_of (jobs s1) x =
           Option.bind (((map_of (jobs s))(jid \<mapsto> job3)) x)
             (\<lambda>jb. if \<not> expired (sweepAt r - 3600000) jb then Some jb else None)"
    unfolding s1_def by (rule finishJob_lookup [OF d])
  have "lawful (jobs s) (jobs (fst (loopHead t (jobQueue s1) s1)))"
    unfolding lawful_def
  proof (intro allI impI)
    fix x jb
    assume jb: "map_of (jobs s) x = Some jb"
    let ?final = "map_of (jobs (fst (loopHead t (jobQueue s1) s1))) x"
    from loopHead_shape [OF inv1, of t x]
    consider (kept) "?final = map_of (jobs s1) x"
      | (begun) jb' where "x \<in> set (jobQueue s1)" "map_of (jobs s1) x = Some jb'"
          "status jb' = Pending" "?final = Some (beginJob t jb')"
      by blast
    then show "case ?final of
                 None \<Rightarrow> status jb \<noteq> Pending
               | Some job' \<Rightarrow> statusMove (status jb) (status job')
                              \<and> (terminal (status jb) \<longrightarrow> job' = jb)"
    proof cases
      case kept
      show ?thesis
      proof (cases "x = jid")
        case True
        with jb job have "jb = job" by simp
        with True kept job fin show ?thesis
          by (auto simp: look statusMove_def terminal_def)
      next
        case False
        show ?thesis
        proof (cases "expired (sweepAt r - 3600000) jb")
          case True
          then have "completed (timestamps jb) \<noteq> None" by (rule expired_completed)
          with inv jb have "status jb \<noteq> Pending" by (auto simp: registryInv_def)
          with True False kept jb show ?thesis by (simp add: look)
        next
          case notexp: False
          with False kept jb show ?thesis by (simp add: look statusMove_def)
        qed
      qed
    next
      case begun
      from begun(1) notq have ne: "x \<noteq> jid" by (auto simp: q1)
      with begun(2) jb have "jb' = jb"
        by (auto simp: look split: if_splits)
      with begun show ?thesis
        by (simp add: statusMove_def terminal_def beginJob_def)
    qed
  qed
  with loopHead_inv [OF inv1, of t] show ?thesis by (simp add: s1_def finishJob_jobQueue)
qed


lemma step_preserves:
  assumes st: "step sw sw'" and inv: "serviceInv sw"
  shows "serviceInv sw' \<and> lawful (jobs (fst sw)) (jobs (fst sw'))"
  using st
proof cases
  case (submit uuid s w t0 t1 t2 ty)
  from inv submit(1) have r: "registryInv (jobs s) (jobQueue s)"
    and w: "workerInv (jobs s) (jobQueue s) w"
    by (simp_all add: serviceInv_def)
  show ?thesis
    using registryInv_submit [OF r submit(3)] workerInv_submit [OF w submit(3)]
      lawful_submit [OF submit(3)]
    by (simp add: submit(1,2) serviceInv_def createJob_jobs createJob_jobQueue)
next
  case (start t)
  show ?thesis
  proof (cases "isProcessing (fst sw) \<or> jobQueue (fst sw) = []")
    case True
    with inv show ?thesis by (simp add: start processQueueStart_def lawful_refl Let_def)
  next
    case False
    from inv have "registryInv (jobs ((fst sw)\<lparr>isProcessing := True\<rparr>)) (jobQueue (fst sw))"
      by (simp add: serviceInv_def)
    from loopHead_inv [OF this, of t] False show ?thesis
      by (simp add: start processQueueStart_def Let_def)
  qed
next
  case (wake r t)
  obtain s w where sw: "sw = (s, w)" by (cases sw)
  from inv have reg: "registryInv (jobs s) (jobQueue s)"
    and wi: "workerInv (jobs s) (jobQueue s) w"
    by (simp_all add: serviceInv_def sw)
  show ?thesis
  proof (cases w)
    case Idle
    with inv show ?thesis by (simp add: wake genStep_def sw lawful_refl)
  next
    case (Awaiting jid kinds)
    show ?thesis
    proof (cases kinds)
      case Nil
      with inv Awaiting show ?thesis by (simp add: wake genStep_def sw lawful_refl)
    next
      case (Cons k ks)
      from wi Awaiting obtain job where notq: "jid \<notin> set (jobQueue s)"
        and job: "map_of (jobs s) jid = Some job" "status job = Processing"
        by (auto simp: workerInv_def)
      obtain job1 err where gen: "processSingleReport (logic r) job k = (job1, err)"
        by (cases "processSingleReport (logic r) job k")
      from processSingleReport_keeps [of "logic r" job k] gen job reg
      have job1: "status job1 = Processing" "completed (timestamps job1) = None"
        by (auto simp: registryInv_def)
      show ?thesis
      proof (cases "err = None \<and> ks \<noteq> []")
        case True
        have eq: "sw' = (s\<lparr>jobs := AList.update jid job1 (jobs s)\<rparr>, Awaiting jid ks)"
          using True by (simp add: wake genStep_def sw Awaiting Cons job gen)
        have "registryInv (AList.update jid job1 (jobs s)) (jobQueue s)"
          using reg notq job1
          by (auto simp: registryInv_def distinct_update update_conv')
        moreover have "workerInv (AList.update jid job1 (jobs s)) (jobQueue s) (Awaiting jid ks)"
          using notq job1 by (simp add: workerInv_def update_conv')
        moreover have "lawful (jobs s) (AList.update jid job1 (jobs s))"
          using job job1 by (auto simp: lawful_def update_conv' statusMove_def terminal_def)
        ultimately show ?thesis by (simp add: eq sw serviceInv_def)
      next
        case False
        let ?job3 = "catchFailure err (caughtAt r) (endJob err (completedAt r) job1)"
        have eq: "sw' = loopHead t (jobQueue (finishJob r jid ?job3 s)) (finishJob r jid ?job3 s)"
          using False by (auto simp: wake genStep_def sw Awaiting Cons job gen Let_def)
        from wake_finish [OF reg notq job
            endJob_terminal [of err "caughtAt r" "completedAt r" job1], of t r]
        show ?thesis by (simp add: eq sw)
      qed
    qed
  qed
qed

lemma reachable_serviceInv: "reachable sw \<Longrightarrow> serviceInv sw"
proof (induction rule: reachable.induct)
  case reach_init
  show ?case by (rule serviceInv_initial)
next
  case (reach_step sw sw')
  with step_preserves show ?case by blast
qed

text \<open>
  Claim C4. A record is created pending. In every step from a reachable state of the
  service (a submission, a start of the worker, a wake-up of the worker with its metrics
  update and sweep), every record in the registry either leaves the registry, and then
  was not pending, or stays with a status that is unchanged, or moved from pending to
  processing, or moved from processing to completed or failed; a record that was
  completed or failed stays as it was. The metrics updates leave the registry as it is,
  and lookups do not return a state.
\<close>

theorem job_status_state_machine:
  "getJobStatus uuid (snd (createJob uuid t0 t1 t2 ty s)) =
     Some (newJob uuid t1 ty (length (jobQueue s)))
   \<and> status (newJob uuid t1 ty (length (jobQueue s))) = Pending
   \<and> jobs (updateSystemMetrics job0 s) = jobs s
   \<and> jobs (updateResponseTimeMetrics rt s) = jobs s
   \<and> (reachable sw \<longrightarrow> step sw sw' \<longrightarrow>
        (\<forall>jid job. getJobStatus jid (fst sw) = Some job \<longrightarrow>
           (case getJobStatus jid (fst sw') of
              None \<Rightarrow> status job \<noteq> Pending
            | Some job' \<Rightarrow> statusMove (status job) (status job')
                           \<and> (terminal (status job) \<longrightarrow> job' = job))))"
proof (intro conjI impI)
  assume "reachable sw" and "step sw sw'"
  with step_preserves reachable_serviceInv
  have "lawful (jobs (fst sw)) (jobs (fst sw'))" by blast
  then show "\<forall>jid job. getJobStatus jid (fst sw) = Some job \<longrightarrow>
           (case getJobStatus jid (fst sw') of
              None \<Rightarrow> status job \<noteq> Pending
            | Some job' \<Rightarrow> statusMove (status job) (status job')
                           \<and> (terminal (status job) \<longrightarrow> job' = job))"
    by (simp add: lawful_def getJobStatus_def)
qed (simp_all add: getJobStatus_def createJob_jobs update_conv' newJob_def
      updateSystemMetrics_jobs updateResponseTimeMetrics_def Let_def)

lemma exampleSubmitted_jobs:
  "jobs (fst exampleSubmitted) = [(''0a1b2c3d-0000'', newJob ''0a1b2c3d-0000'' 11 Accounts 0)]"
  "jobQueue (fst exampleSubmitted) = [''0a1b2c3d-0000'']"
  "isProcessing (fst exampleSubmitted) = False"
  by (simp_all add: exampleSubmitted_def createJob_jobs createJob_jobQueue createJob_isProcessing
      initialService_def)

lemma exampleStarted_jobs:
  "jobs (fst exampleStarted) =
     [(''0a1b2c3d-0000'', beginJob 20 (newJob ''0a1b2c3d-0000'' 11 Accounts 0))]"
  "jobQueue (fst exampleStarted) = []"
  "snd exampleStarted = Awaiting ''0a1b2c3d-0000'' [Accounts]"
  by (simp_all add: exampleStarted_def processQueueStart_def exampleSubmitted_jobs Let_def newJob_def)

lemma exampleFinished_jobs:
  "jobs (fst exampleFinished) =
     [(''0a1b2c3d-0000'',
       endJob None 30 (fst (generateAccountsReport allSucceed
          (beginJob 20 (newJob ''0a1b2c3d-0000'' 11 Accounts 0)))))]"
  apply (simp add: exampleFinished_def genStep_def exampleStarted_jobs Let_def exampleRun_def
      split_beta)
  apply (simp add: generateAccountsReport_def allSucceed_def catchFailure_def finishJob_jobs
      finishJob_jobQueue exampleStarted_jobs expired_def endJob_def beginJob_def newJob_def Let_def)
  done

theorem job_status_state_machine_witness:
  "reachable exampleSubmitted \<and> step exampleSubmitted exampleStarted
   \<and> map_option status (getJobStatus ''0a1b2c3d-0000'' (fst exampleSubmitted)) = Some Pending
   \<and> map_option status (getJobStatus ''0a1b2c3d-0000'' (fst exampleStarted)) = Some Processing
   \<and> statusMove Pending Processing
   \<and> reachable exampleStarted \<and> step exampleStarted exampleFinished
   \<and> map_option status (getJobStatus ''0a1b2c3d-0000'' (fst exampleFinished)) = Some Completed
   \<and> statusMove Processing Completed
   \<and> reachable exampleFinished \<and> step exampleFinished exampleResubmitted
   \<and> getJobStatus ''0a1b2c3d-0000'' (fst exampleResubmitted) =
       getJobStatus ''0a1b2c3d-0000'' (fst exampleFinished)"
proof -
  have r1: "reachable exampleSubmitted"
    unfolding exampleSubmitted_def
    by (rule reach_step [OF reach_init]) (rule step.submit, simp add: initialService_def)
  have s12: "step exampleSubmitted exampleStarted"
    unfolding exampleStarted_def by (rule step.start)
  have r2: "reachable exampleStarted" by (rule reach_step [OF r1 s12])
  have s23: "step exampleStarted exampleFinished"
    unfolding exampleFinished_def by (rule step.wake)
  have r3: "reachable exampleFinished" by (rule reach_step [OF r2 s23])
  have "step (fst exampleFinished, snd exampleFinished) exampleResubmitted"
    unfolding exampleResubmitted_def
    by (rule step.submit) (simp add: exampleFinished_jobs)
  then have s34: "step exampleFinished exampleResubmitted" by simp
  have a1: "getJobStatus ''0a1b2c3d-0000'' (fst exampleSubmitted) =
              Some (newJob ''0a1b2c3d-0000'' 11 Accounts 0)"
    by (simp add: getJobStatus_def exampleSubmitted_jobs)
  have a2: "getJobStatus ''0a1b2c3d-0000'' (fst exampleStarted) =
              Some (beginJob 20 (newJob ''0a1b2c3d-0000'' 11 Accounts 0))"
    by (simp add: getJobStatus_def exampleStarted_jobs)
  have a3: "getJobStatus ''0a1b2c3d-0000'' (fst exampleFinished) =
              Some (endJob None 30 (fst (generateAccountsReport allSucceed
                 (beginJob 20 (newJob ''0a1b2c3d-0000'' 11 Accounts 0)))))"
    by (simp add: getJobStatus_def exampleFinished_jobs)
  have st3: "status (endJob None 30 (fst (generateAccountsReport allSucceed
                 (beginJob 20 (newJob ''0a1b2c3d-0000'' 11 Accounts 0))))) = Completed"
    by (simp add: endJob_def Let_def)
  have a4: "getJobStatus ''0a1b2c3d-0000'' (fst exampleResubmitted) =
              Some (endJob None 30 (fst (generateAccountsReport allSucceed
                 (beginJob 20 (newJob ''0a1b2c3d-0000'' 11 Accounts 0)))))"
    by (simp add: getJobStatus_def exampleResubmitted_def createJob_jobs exampleFinished_jobs)
  note sm = job_status_state_machine
              [THEN conjunct2, THEN conjunct2, THEN conjunct2, THEN conjunct2, rule_format]
  have st1: "status (newJob ''0a1b2c3d-0000'' 11 Accounts 0) = Pending"
    by (simp add: newJob_def)
  from sm [OF r1 s12 a1] have m12: "statusMove Pending Processing"
    by (simp add: a2 st1 beginJob_def)
  have st2: "status (beginJob 20 (newJob ''0a1b2c3d-0000'' 11 Accounts 0)) = Processing"
    by (simp add: beginJob_def)
  from sm [OF r2 s23 a2] have m23: "statusMove Processing Completed"
    by (simp add: a3 st2 st3)
  from sm [OF r3 s34 a3] have same:
    "getJobStatus ''0a1b2c3d-0000'' (fst exampleResubmitted) =
       getJobStatus ''0a1b2c3d-0000'' (fst exampleFinished)"
    by (simp add: a4 a3)
  show ?thesis
    using r1 s12 r2 s23 r3 s34 m12 m23 same
    by (simp add: a1 a2 a3 st1 st2 st3)
qed

section \<open>The worker's steps and a pass of the loop\<close>

text \<open>
  Without interleaved submissions the wake-ups of the worker for one job add up to the
  pass of \<open>processQueue\<close> for that job, followed by the head of the loop: for a job of
  a single kind after one wake-up, for a job of kind \<open>all\<close> whose three reports
  succeed after three.
\<close>

lemma finishJob_overwrite:
  "finishJob r jid job (s\<lparr>jobs := AList.update jid job0 (jobs s)\<rparr>) = finishJob r jid job s"
  by (simp add: finishJob_def updateSystemMetrics_def cleanupOldJobs_def Let_def)

lemma wake_agrees_single:
  assumes job: "map_of (jobs s) jid = Some job" and single: "jtype job \<noteq> All"
  shows "genStep r t (s\<lparr>jobs := AList.update jid (beginJob (startedAt r) job) (jobs s)\<rparr>,
                      Awaiting jid (kindsOf (jtype job)))
         = loopHead t (jobQueue s) (processIteration r jid job s)"
proof -
  from single have k: "kindsOf (jtype job) = [jtype job]" by (cases "jtype job") simp_all
  have jt: "jtype (beginJob (startedAt r) job) = jtype job" by (simp add: beginJob_def)
  show ?thesis
    using single
    by (simp add: genStep_def k update_conv' processIteration_def processJob_def jt
        split_beta Let_def finishJob_overwrite finishJob_jobQueue)
qed

lemma wake_agrees_all:
  assumes job: "map_of (jobs s) jid = Some job" and all: "jtype job = All"
    and ok: "snd (processJob (startedAt r) (logic r) (completedAt r) job) = None"
  shows "genStep r t (genStep r t' (genStep r t''
           (s\<lparr>jobs := AList.update jid (beginJob (startedAt r) job) (jobs s)\<rparr>,
            Awaiting jid (kindsOf (jtype job)))))
         = loopHead t (jobQueue s) (processIteration r jid job s)"
proof -
  have jt: "jtype (beginJob (startedAt r) job) = All" by (simp add: beginJob_def all)
  from ok have a: "snd (generateAccountsReport (logic r) (beginJob (startedAt r) job)) = None"
    by (auto simp: processJob_def jt processAllReports_def Let_def split: prod.splits option.splits)
  from ok a have y: "snd (generateYearlyReport (logic r)
                      (fst (generateAccountsReport (logic r) (beginJob (startedAt r) job)))) = None"
    by (auto simp: processJob_def jt processAllReports_def Let_def split: prod.splits option.splits)
  from ok a y have f: "snd (generateFsReport (logic r) (fst (generateYearlyReport (logic r)
                      (fst (generateAccountsReport (logic r) (beginJob (startedAt r) job)))))) = None"
    by (auto simp: processJob_def jt processAllReports_def Let_def split: prod.splits option.splits)
  have pj: "fst (processJob (startedAt r) (logic r) (completedAt r) job) =
              endJob None (completedAt r) (fst (generateFsReport (logic r) (fst (generateYearlyReport (logic r)
                      (fst (generateAccountsReport (logic r) (beginJob (startedAt r) job)))))))"
    using a y f
    by (auto simp: processJob_def jt processAllReports_def Let_def split: prod.splits option.splits)
  show ?thesis
    using a y f
    by (simp add: genStep_def all update_conv' processIteration_def ok pj
        split_beta Let_def finishJob_overwrite finishJob_jobQueue catchFailure_def)
qed

section \<open>The success rate after a drain\<close>

lemma processIteration_passResult:
  "processIteration r jid job s = finishJob r jid (passResult r job) s"
  by (simp add: processIteration_def passResult_def split_beta)

lemma threeSubmitted_jobs:
  "jobs threeSubmitted =
     [(''0a1b2c3d-0000'', newJob ''0a1b2c3d-0000'' 11 Accounts 0),
      (''1b2c3d4e-0000'', newJob ''1b2c3d4e-0000'' 14 Accounts 1),
      (''2c3d4e5f-0000'', newJob ''2c3d4e5f-0000'' 17 Accounts 2)]"
  "jobQueue threeSubmitted = [''0a1b2c3d-0000'', ''1b2c3d4e-0000'', ''2c3d4e5f-0000'']"
  "isProcessing threeSubmitted = False"
  by (simp_all add: threeSubmitted_def threeSubs_def createJob_jobs createJob_jobQueue
      createJob_isProcessing initialService_def numeral_2_eq_2)

lemma finishJob_successRate:
  "successRate (systemMetrics (finishJob r jid job s)) = rateOver (AList.update jid job (jobs s))"
  by (simp add: finishJob_def cleanupOldJobs_def updateSystemMetrics_def rateOver_def
      terminal_def Let_def)

lemma passResult_success:
  "passResult \<lparr>startedAt = st, logic = allSucceed, completedAt = ct, caughtAt = ca, sweepAt = sw\<rparr>
     (newJob jid t Accounts n) =
   (newJob jid t Accounts n)
     \<lparr>status := Completed,
      timestamps := \<lparr>created = t, started = Some st, completed = Some ct\<rparr>,
      metrics := \<lparr>responseTime = None, processingTime = Some (ct - st), concurrentJobs = Some (n + 1)\<rparr>,
      resultPaths := [''out/accounts_'' @ take 8 jid @ ''.csv'']\<rparr>"
  by (simp add: passResult_def processJob_def beginJob_def endJob_def generateAccountsReport_def
      catchFailure_def allSucceed_def newJob_def Let_def)

lemma passResult_failure:
  "passResult \<lparr>startedAt = st, logic = accountsFails, completedAt = ct, caughtAt = ca, sweepAt = sw\<rparr>
     (newJob jid t Accounts n) =
   (newJob jid t Accounts n)
     \<lparr>status := Failed,
      timestamps := \<lparr>created = t, started = Some st, completed = Some ca\<rparr>,
      metrics := \<lparr>responseTime = None, processingTime = Some (ct - st), concurrentJobs = Some (n + 1)\<rparr>,
      resultPaths := [''out/accounts_'' @ take 8 jid @ ''.csv''],
      errorMessage := Some ''Directory not found''\<rparr>"
  by (simp add: passResult_def processJob_def beginJob_def endJob_def generateAccountsReport_def
      catchFailure_def accountsFails_def newJob_def Let_def)

lemma newJob_fields:
  "status (newJob jid t ty n) = Pending"
  "completed (timestamps (newJob jid t ty n)) = None"
  "jobId (newJob jid t ty n) = jid"
  "jtype (newJob jid t ty n) = ty"
  "resultPaths (newJob jid t ty n) = []"
  by (simp_all add: newJob_def)

lemma slowRuns_at:
  "slowRuns ''0a1b2c3d-0000'' =
     \<lparr>startedAt = 20, logic = allSucceed, completedAt = 30, caughtAt = 31, sweepAt = 32\<rparr>"
  "slowRuns ''1b2c3d4e-0000'' =
     \<lparr>startedAt = 40, logic = accountsFails, completedAt = 3600050, caughtAt = 3600051,
      sweepAt = 3600052\<rparr>"
  "slowRuns ''2c3d4e5f-0000'' =
     \<lparr>startedAt = 3600060, logic = allSucceed, completedAt = 7200100, caughtAt = 7200101,
      sweepAt = 7200102\<rparr>"
  by (simp_all add: slowRuns_def)

lemma slow_drain_jobs:
  "jobs (processQueue slowRuns threeSubmitted) =
     [(''2c3d4e5f-0000'',
       passResult (slowRuns ''2c3d4e5f-0000'') (newJob ''2c3d4e5f-0000'' 17 Accounts 2))]"
  by (simp add: processQueue_def threeSubmitted_jobs processIteration_passResult
      finishJob_jobs slowRuns_at passResult_success passResult_failure expired_def
      newJob_fields Let_def)

lemma slow_drain_rate:
  "successRate (systemMetrics (processQueue slowRuns threeSubmitted)) = 50"
  by (simp add: processQueue_def threeSubmitted_jobs processIteration_passResult
      finishJob_jobs finishJob_successRate slowRuns_at passResult_success passResult_failure
      expired_def rateOver_def terminal_def newJob_fields Let_def)

text \<open>
  Claim C9, as stated, fails when records are evicted during the drain. Three jobs are
  submitted and exactly one fails; the first record is swept before the last metrics
  update and the second by the last sweep. The reported rate is 50, the one retained
  record is completed (ratio 100 over the retained set), and (3 - 1) / 3 * 100 is not
  50.
\<close>

theorem success_rate_eviction_counterexample:
  "successRate (systemMetrics (processQueue slowRuns threeSubmitted)) = 50
   \<and> map (\<lambda>(jid, job). (jid, status job)) (jobs (processQueue slowRuns threeSubmitted))
       = [(''2c3d4e5f-0000'', Completed)]
   \<and> rateOver (jobs (processQueue slowRuns threeSubmitted)) = 100
   \<and> (3 - 1) / 3 * 100 \<noteq> (50 :: real)"
  by (simp add: slow_drain_rate slow_drain_jobs slowRuns_at passResult_success rateOver_def
      terminal_def newJob_fields)

lemma passResult_status:
  "status (passResult r job) = (if runSucceeds r job then Completed else Failed)"
  by (cases "snd (processJob (startedAt r) (logic r) (completedAt r) job)")
     (simp_all add: passResult_def runSucceeds_def catchFailure_def processJob_def endJob_def
       split_beta Let_def)

lemma passResult_completed:
  "completed (timestamps (passResult r job)) =
     Some (if runSucceeds r job then completedAt r else caughtAt r)"
  by (cases "snd (processJob (startedAt r) (logic r) (completedAt r) job)")
     (simp_all add: passResult_def runSucceeds_def catchFailure_def processJob_def endJob_def
       split_beta Let_def)

lemma passResult_terminal: "terminal (status (passResult r job))"
  by (simp add: passResult_status terminal_def)

lemma passResult_not_expired:
  assumes "h \<le> completedAt r" and "h \<le> caughtAt r"
  shows "\<not> expired h (passResult r job)"
  using assms by (simp add: expired_def passResult_completed)

lemma update_present:
  assumes "distinct (map fst reg)" and "map_of reg k = Some j"
  shows "AList.update k (f k j) reg =
           map (\<lambda>(k', j'). if k' = k then (k', f k' j') else (k', j')) reg"
  using assms
proof (induction reg)
  case Nil
  then show ?case by simp
next
  case (Cons entry reg)
  obtain k0 j0 where entry: "entry = (k0, j0)" by (cases entry)
  show ?case
  proof (cases "k0 = k")
    case True
    with Cons.prems entry have j0: "j0 = j" and notin: "k \<notin> fst ` set reg" by auto
    from notin have "map (\<lambda>(k', j'). if k' = k then (k', f k' j') else (k', j')) reg = reg"
      by (induction reg) auto
    with True j0 show ?thesis by (simp add: entry)
  next
    case False
    with Cons.prems entry have "distinct (map fst reg)" "map_of reg k = Some j" by auto
    with Cons.IH False show ?thesis by (simp add: entry)
  qed
qed

lemma set_update_subset: "set (AList.update k v reg) \<subseteq> insert (k, v) (set reg)"
  by (induction reg) auto

lemma update_member: "(k, v) \<in> set (AList.update k v reg)"
  by (induction reg) auto


lemma registryInv_tail: "registryInv reg (jid # rest) \<Longrightarrow> registryInv reg rest"
  unfolding registryInv_def by (simp del: map_of_eq_Some_iff)

lemma filter_keeps_all: "(\<forall>e \<in> set xs. P e) \<Longrightarrow> filter P xs = xs"
  by (induction xs) auto

lemma settle_step:
  assumes d: "distinct (map fst reg)" and job: "map_of reg jid = Some job"
    and notin: "jid \<notin> set rest"
  shows "settle env rest (AList.update jid (passResult (env jid) job) reg) =
           settle env (jid # rest) reg"
proof -
  have "AList.update jid (passResult (env jid) job) reg =
          map (\<lambda>(k', j'). if k' = jid then (k', passResult (env k') j') else (k', j')) reg"
    by (rule update_present [OF d job, of "\<lambda>k j. passResult (env k) j"])
  then show ?thesis
    using notin by (auto simp: settle_def)
qed

lemma drain_without_eviction:
  assumes "registryInv (jobs s) q"
    and "\<forall>(k, j) \<in> set (jobs s). \<forall>v \<in> set q. \<not> expired (sweepAt (env v) - 3600000) j"
    and "noEviction env (set q)"
  shows "jobs (processLoop env q s) = settle env q (jobs s)
         \<and> (q \<noteq> [] \<longrightarrow>
              successRate (systemMetrics (processLoop env q s)) = rateOver (settle env q (jobs s)))"
  using assms
proof (induction q arbitrary: s)
  case Nil
  show ?case by (simp add: settle_def)
next
  case (Cons jid rest)
  let ?s0 = "s\<lparr>jobQueue := rest\<rparr>"
  from Cons.prems(1) obtain job where job: "map_of (jobs s) jid = Some job"
    by (auto simp: registryInv_def)
  from Cons.prems(1) have d: "distinct (map fst (jobs s))" and notin: "jid \<notin> set rest"
    by (simp_all add: registryInv_def)
  let ?job2 = "passResult (env jid) job"
  let ?s1 = "finishJob (env jid) jid ?job2 ?s0"
  have unfold: "processLoop env (jid # rest) s = processLoop env rest ?s1"
    by (simp add: job processIteration_passResult)
  from Cons.prems(3) have h_self:
    "sweepAt (env jid) - 3600000 \<le> completedAt (env jid)"
    "sweepAt (env jid) - 3600000 \<le> caughtAt (env jid)"
    by (simp_all add: noEviction_def)
  have fresh2: "\<And>v. v \<in> set (jid # rest) \<Longrightarrow> \<not> expired (sweepAt (env v) - 3600000) ?job2"
    using Cons.prems(3) by (intro passResult_not_expired) (auto simp: noEviction_def)
  have all_kept: "\<forall>e \<in> set (AList.update jid ?job2 (jobs s)).
                    (\<lambda>(j, jb). \<not> expired (sweepAt (env jid) - 3600000) jb) e"
  proof
    fix e assume "e \<in> set (AList.update jid ?job2 (jobs s))"
    with set_update_subset have "e = (jid, ?job2) \<or> e \<in> set (jobs s)" by fastforce
    then show "(\<lambda>(j, jb). \<not> expired (sweepAt (env jid) - 3600000) jb) e"
      using fresh2 [of jid] Cons.prems(2) by auto
  qed
  have jobs1: "jobs ?s1 = AList.update jid ?job2 (jobs s)"
    by (simp add: finishJob_jobs filter_keeps_all [OF all_kept])
  have rate1: "successRate (systemMetrics ?s1) = rateOver (AList.update jid ?job2 (jobs s))"
    by (simp add: finishJob_successRate)
  have invt: "registryInv (jobs ?s0) rest"
    using registryInv_tail [OF Cons.prems(1)] by simp
  have inv1: "registryInv (jobs ?s1) rest"
    by (rule finishJob_registryInv [OF invt notin passResult_terminal])
  have stale1: "\<forall>(k, j) \<in> set (jobs ?s1). \<forall>v \<in> set rest. \<not> expired (sweepAt (env v) - 3600000) j"
  proof (rule ballI)
    fix e assume e: "e \<in> set (jobs ?s1)"
    from e jobs1 set_update_subset have "e = (jid, ?job2) \<or> e \<in> set (jobs s)" by fastforce
    then show "case e of (k, j) \<Rightarrow> \<forall>v \<in> set rest. \<not> expired (sweepAt (env v) - 3600000) j"
      using fresh2 Cons.prems(2) by auto
  qed
  have ne1: "noEviction env (set rest)"
    using Cons.prems(3) by (simp add: noEviction_def)
  note IH = Cons.IH [OF inv1 stale1 ne1]
  have settle1: "settle env rest (jobs ?s1) = settle env (jid # rest) (jobs s)"
    by (simp add: jobs1 settle_step [OF d job notin])
  have "jobs (processLoop env rest ?s1) = settle env (jid # rest) (jobs s)
        \<and> successRate (systemMetrics (processLoop env rest ?s1)) =
            rateOver (settle env (jid # rest) (jobs s))"
  proof (cases "rest = []")
    case True
    have "settle env [] (jobs ?s1) = jobs ?s1" by (simp add: settle_def)
    with settle1 True have "jobs ?s1 = settle env (jid # rest) (jobs s)" by simp
    with True rate1 jobs1 show ?thesis by simp
  next
    case False
    with IH settle1 show ?thesis by simp
  qed
  then show ?case unfolding unfold by simp
qed


lemma rateOver_settled:
  assumes keys: "fst ` set reg \<subseteq> set q" and ne: "reg \<noteq> []"
  shows "rateOver (settle env q reg) =
           real (length (filter (\<lambda>(k, j). runSucceeds (env k) j) reg)) / real (length reg) * 100"
proof -
  from keys have snd_eq: "map snd (settle env q reg) = map (\<lambda>(k, j). passResult (env k) j) reg"
    by (induction reg) (auto simp: settle_def)
  have all_done: "filter (\<lambda>j. terminal (status j)) (map (\<lambda>(k, j). passResult (env k) j) reg) =
                    map (\<lambda>(k, j). passResult (env k) j) reg"
    by (rule filter_keeps_all) (auto simp: passResult_terminal)
  have succ: "length (filter (\<lambda>j. status j = Completed) (map (\<lambda>(k, j). passResult (env k) j) reg)) =
                length (filter (\<lambda>(k, j). runSucceeds (env k) j) reg)"
    by (induction reg) (auto simp: passResult_status split: if_splits)
  show ?thesis
    unfolding rateOver_def Let_def snd_eq all_done
    using ne succ by (simp del: filter_map)
qed

lemma full_rate: "xs \<noteq> [] \<Longrightarrow> real (length xs) / real (length xs) * 100 = 100"
  by simp

lemma rateOver_all_completed:
  assumes nofail: "\<forall>(k, j) \<in> set reg. status j \<noteq> Failed"
    and member: "(k0, j0) \<in> set reg" and done0: "status j0 = Completed"
  shows "rateOver reg = 100"
proof -
  let ?done = "filter (\<lambda>j. terminal (status j)) (map snd reg)"
  from nofail have same: "?done = filter (\<lambda>j. status j = Completed) (map snd reg)"
    by (intro filter_cong) (auto simp: terminal_def)
  from member done0 have "j0 \<in> snd ` set reg" and "terminal (status j0)"
    by (force simp: terminal_def)+
  then have mem: "j0 \<in> set ?done" by simp
  have ne: "?done \<noteq> []"
  proof
    assume "?done = []"
    with mem show False by simp
  qed
  have all: "filter (\<lambda>j. status j = Completed) ?done = ?done"
    unfolding same by simp
  have "rateOver reg =
          real (length (filter (\<lambda>j. status j = Completed) ?done)) / real (length ?done) * 100"
    unfolding rateOver_def Let_def using ne by (simp only: if_False)
  also have "\<dots> = real (length ?done) / real (length ?done) * 100"
    by (simp only: all)
  also have "\<dots> = 100" by (rule full_rate [OF ne])
  finally show ?thesis .
qed

lemma drain_all_succeed:
  assumes "registryInv (jobs s) q" and "q \<noteq> []"
    and "\<forall>(k, j) \<in> set (jobs s). status j \<noteq> Failed"
    and "\<forall>u \<in> set q. \<forall>job. map_of (jobs s) u = Some job \<longrightarrow> runSucceeds (env u) job"
  shows "successRate (systemMetrics (processLoop env q s)) = 100"
  using assms
proof (induction q arbitrary: s)
  case Nil
  then show ?case by simp
next
  case (Cons jid rest)
  let ?s0 = "s\<lparr>jobQueue := rest\<rparr>"
  from Cons.prems(1) obtain job where job: "map_of (jobs s) jid = Some job"
    by (auto simp: registryInv_def)
  from Cons.prems(1) have d: "distinct (map fst (jobs s))" and notin: "jid \<notin> set rest"
    by (simp_all add: registryInv_def)
  let ?job2 = "passResult (env jid) job"
  let ?s1 = "finishJob (env jid) jid ?job2 ?s0"
  have unfold: "processLoop env (jid # rest) s = processLoop env rest ?s1"
    by (simp add: job processIteration_passResult)
  from Cons.prems(4) job have done2: "status ?job2 = Completed"
    by (simp add: passResult_status)
  have nofail_upd: "\<forall>(k, j) \<in> set (AList.update jid ?job2 (jobs s)). status j \<noteq> Failed"
  proof (rule ballI)
    fix e assume "e \<in> set (AList.update jid ?job2 (jobs s))"
    with set_update_subset have "e = (jid, ?job2) \<or> e \<in> set (jobs s)" by fastforce
    then show "case e of (k, j) \<Rightarrow> status j \<noteq> Failed"
      using done2 Cons.prems(3) by auto
  qed
  have "successRate (systemMetrics (processLoop env rest ?s1)) = 100"
  proof (cases "rest = []")
    case True
    from rateOver_all_completed [OF nofail_upd update_member done2]
    show ?thesis by (simp add: True finishJob_successRate)
  next
    case False
    have invt: "registryInv (jobs ?s0) rest"
      using registryInv_tail [OF Cons.prems(1)] by simp
    have inv1: "registryInv (jobs ?s1) rest"
      by (rule finishJob_registryInv [OF invt notin passResult_terminal])
    have nofail1: "\<forall>(k, j) \<in> set (jobs ?s1). status j \<noteq> Failed"
      using nofail_upd by (auto simp: finishJob_jobs)
    have succ1: "\<forall>u \<in> set rest. \<forall>jb. map_of (jobs ?s1) u = Some jb \<longrightarrow> runSucceeds (env u) jb"
    proof (intro ballI allI impI)
      fix u jb assume u: "u \<in> set rest" and jb: "map_of (jobs ?s1) u = Some jb"
      from u notin have "u \<noteq> jid" by auto
      with jb have "map_of (jobs s) u = Some jb"
        using finishJob_lookup [of ?s0 "env jid" jid ?job2 u] d
        by (auto split: if_splits bind_splits)
      with Cons.prems(4) u show "runSucceeds (env u) jb" by simp
    qed
    from Cons.IH [OF inv1 False nofail1 succ1] show ?thesis .
  qed
  then show ?case unfolding unfold .
qed

lemma length_update_absent:
  "k \<notin> fst ` set reg \<Longrightarrow> length (AList.update k v reg) = Suc (length reg)"
  by (induction reg) auto

lemma submitAll_registry:
  assumes "registryInv (jobs s) (jobQueue s)"
    and "distinct (map subId subs)"
    and "set (map subId subs) \<inter> fst ` set (jobs s) = {}"
    and "fst ` set (jobs s) = set (jobQueue s)"
  shows "registryInv (jobs (submitAll subs s)) (jobQueue (submitAll subs s))
         \<and> jobQueue (submitAll subs s) = jobQueue s @ map subId subs
         \<and> fst ` set (jobs (submitAll subs s)) = set (jobQueue (submitAll subs s))
         \<and> isProcessing (submitAll subs s) = isProcessing s
         \<and> length (jobs (submitAll subs s)) = length (jobs s) + length subs"
  using assms
proof (induction subs arbitrary: s)
  case Nil
  then show ?case by simp
next
  case (Cons b bs)
  let ?s1 = "snd (createJob (subId b) (subStart b) (subCreated b) (subEnd b) (subType b) s)"
  from Cons.prems(3) have fresh: "subId b \<notin> fst ` set (jobs s)" by auto
  have inv1: "registryInv (jobs ?s1) (jobQueue ?s1)"
    using registryInv_submit [OF Cons.prems(1) fresh]
    by (simp add: createJob_jobs createJob_jobQueue)
  have d1: "distinct (map subId bs)" using Cons.prems(2) by simp
  have disj1: "set (map subId bs) \<inter> fst ` set (jobs ?s1) = {}"
    using Cons.prems(2,3) by (auto simp: createJob_jobs dom_update)
  have keys1: "fst ` set (jobs ?s1) = set (jobQueue ?s1)"
    using Cons.prems(4) by (simp add: createJob_jobs createJob_jobQueue dom_update)
  note IH = Cons.IH [OF inv1 d1 disj1 keys1]
  have c1: "registryInv (jobs (submitAll (b # bs) s)) (jobQueue (submitAll (b # bs) s))"
    using IH [THEN conjunct1] by simp
  have c2: "jobQueue (submitAll (b # bs) s) = jobQueue s @ map subId (b # bs)"
    using IH [THEN conjunct2, THEN conjunct1] by (simp add: createJob_jobQueue)
  have c3: "fst ` set (jobs (submitAll (b # bs) s)) = set (jobQueue (submitAll (b # bs) s))"
    using IH [THEN conjunct2, THEN conjunct2, THEN conjunct1] by simp
  have c4: "isProcessing (submitAll (b # bs) s) = isProcessing s"
    using IH [THEN conjunct2, THEN conjunct2, THEN conjunct2, THEN conjunct1]
    by (simp add: createJob_isProcessing)
  have c5: "length (jobs (submitAll (b # bs) s)) = length (jobs s) + length (b # bs)"
    using IH [THEN conjunct2, THEN conjunct2, THEN conjunct2, THEN conjunct2]
    by (simp add: createJob_jobs length_update_absent [OF fresh])
  from c1 c2 c3 c4 c5 show ?case by blast
qed


lemma queued_records_pending:
  assumes inv: "registryInv reg q" and keys: "fst ` set reg = set q" and e: "(k, j) \<in> set reg"
  shows "status j = Pending \<and> completed (timestamps j) = None"
proof -
  from inv have d: "distinct (map fst reg)" by (simp add: registryInv_def)
  with e have look: "map_of reg k = Some j" by simp
  from e keys have "k \<in> set q" by force
  with inv obtain job where "map_of reg k = Some job" "status job = Pending"
    unfolding registryInv_def by blast
  with look have p: "status j = Pending" by simp
  with inv look have "completed (timestamps j) = None"
    unfolding registryInv_def by blast
  with p show ?thesis by simp
qed

lemma initialService_fields:
  "jobs initialService = []" "jobQueue initialService = []" "isProcessing initialService = False"
  by (simp_all add: initialService_def)

lemma submitted_state:
  assumes "distinct (map subId subs)"
  shows "registryInv (jobs (submitAll subs initialService)) (map subId subs)"
    and "jobQueue (submitAll subs initialService) = map subId subs"
    and "fst ` set (jobs (submitAll subs initialService)) = set (map subId subs)"
    and "\<not> isProcessing (submitAll subs initialService)"
    and "length (jobs (submitAll subs initialService)) = length subs"
proof -
  have a1: "registryInv (jobs initialService) (jobQueue initialService)"
    by (simp add: registryInv_def initialService_fields)
  have a3: "set (map subId subs) \<inter> fst ` set (jobs initialService) = {}"
    by (simp add: initialService_fields)
  have a4: "fst ` set (jobs initialService) = set (jobQueue initialService)"
    by (simp add: initialService_fields)
  note all = submitAll_registry [OF a1 assms a3 a4]
  from all [THEN conjunct2, THEN conjunct1]
  show q: "jobQueue (submitAll subs initialService) = map subId subs"
    by (simp add: initialService_fields)
  from all [THEN conjunct1]
  show "registryInv (jobs (submitAll subs initialService)) (map subId subs)"
    by (simp only: q)
  from all [THEN conjunct2, THEN conjunct2, THEN conjunct1]
  show "fst ` set (jobs (submitAll subs initialService)) = set (map subId subs)"
    by (simp only: q)
  from all [THEN conjunct2, THEN conjunct2, THEN conjunct2, THEN conjunct1]
  show "\<not> isProcessing (submitAll subs initialService)"
    by (simp add: initialService_fields)
  from all [THEN conjunct2, THEN conjunct2, THEN conjunct2, THEN conjunct2]
  show "length (jobs (submitAll subs initialService)) = length subs"
    by (simp add: initialService_fields)
qed

lemma processQueue_drains:
  assumes "\<not> isProcessing s" and "jobQueue s \<noteq> []"
  shows "systemMetrics (processQueue env s) =
           systemMetrics (processLoop env (jobQueue s) (s\<lparr>isProcessing := True\<rparr>))"
    and "jobs (processQueue env s) = jobs (processLoop env (jobQueue s) (s\<lparr>isProcessing := True\<rparr>))"
  using assms by (simp_all add: processQueue_def)

text \<open>
  A drain of submissions to a fresh service: the rate when every job succeeds, and the
  rate when no record is evicted.
\<close>

lemma drain_of_submissions:
  fixes subs :: "Submission list" and env :: "string \<Rightarrow> JobRun"
  defines "s0 \<equiv> submitAll subs initialService"
  defines "final \<equiv> processQueue env s0"
  assumes d: "distinct (map subId subs)" and ne: "subs \<noteq> []"
  shows "((\<forall>(k, j) \<in> set (jobs s0). runSucceeds (env k) j) \<longrightarrow>
            successRate (systemMetrics final) = 100)
       \<and> (noEviction env (set (map subId subs)) \<longrightarrow>
            successRate (systemMetrics final) = rateOver (jobs final)
            \<and> length (jobs final) = length subs
            \<and> successRate (systemMetrics final) =
                real (length (filter (\<lambda>(k, j). runSucceeds (env k) j) (jobs s0)))
                  / real (length subs) * 100
            \<and> (length (filter (\<lambda>(k, j). \<not> runSucceeds (env k) j) (jobs s0)) = 1 \<longrightarrow>
                 successRate (systemMetrics final) =
                   (real (length subs) - 1) / real (length subs) * 100))"
proof (intro conjI impI)
  let ?q = "map subId subs"
  let ?s1 = "s0\<lparr>isProcessing := True\<rparr>"
  note st = submitted_state [OF d, folded s0_def]
  from ne have qne: "jobQueue s0 \<noteq> []" by (simp add: st(2))
  note pq = processQueue_drains [OF st(4) qne, of env, folded final_def, unfolded st(2)]
  have inv1: "registryInv (jobs ?s1) ?q" using st(1) by simp
  have pend: "\<And>k j. (k, j) \<in> set (jobs s0) \<Longrightarrow> status j = Pending \<and> completed (timestamps j) = None"
    by (rule queued_records_pending [OF st(1) st(3)])
  {
    assume succ: "\<forall>(k, j) \<in> set (jobs s0). runSucceeds (env k) j"
    have nofail: "\<forall>(k, j) \<in> set (jobs ?s1). status j \<noteq> Failed"
      using pend by auto
    have succ1: "\<forall>u \<in> set ?q. \<forall>job. map_of (jobs ?s1) u = Some job \<longrightarrow> runSucceeds (env u) job"
      using succ by (auto dest: map_of_SomeD)
    from ne have "?q \<noteq> []" by simp
    from drain_all_succeed [OF inv1 this nofail succ1]
    show "successRate (systemMetrics final) = 100" by (simp add: pq)
  }
  assume noev: "noEviction env (set ?q)"
  have stale: "\<forall>(k, j) \<in> set (jobs ?s1). \<forall>v \<in> set ?q. \<not> expired (sweepAt (env v) - 3600000) j"
    using pend by (auto simp: expired_def)
  note dr = drain_without_eviction [OF inv1 stale noev]
  from dr have jobs_final: "jobs final = settle env ?q (jobs s0)" by (simp add: pq)
  from dr ne have rate_final: "successRate (systemMetrics final) = rateOver (settle env ?q (jobs s0))"
    by (simp add: pq)
  from ne st(5) have regne: "jobs s0 \<noteq> []" by auto
  have keys: "fst ` set (jobs s0) \<subseteq> set ?q" using st(3) by simp
  note cnt = rateOver_settled [OF keys regne, of env]
  show "successRate (systemMetrics final) = rateOver (jobs final)"
    by (simp add: rate_final jobs_final)
  show len: "length (jobs final) = length subs"
    by (simp add: jobs_final settle_def st(5))
  show formula: "successRate (systemMetrics final) =
          real (length (filter (\<lambda>(k, j). runSucceeds (env k) j) (jobs s0))) / real (length subs) * 100"
    by (simp add: rate_final cnt st(5))
  assume one: "length (filter (\<lambda>(k, j). \<not> runSucceeds (env k) j) (jobs s0)) = 1"
  have "length (filter (\<lambda>(k, j). runSucceeds (env k) j) (jobs s0))
          + length (filter (\<lambda>(k, j). \<not> runSucceeds (env k) j) (jobs s0)) = length (jobs s0)"
    using sum_length_filter_compl [of "\<lambda>(k, j). runSucceeds (env k) j" "jobs s0"]
    by (simp add: case_prod_beta')
  with one st(5) have "real (length (filter (\<lambda>(k, j). runSucceeds (env k) j) (jobs s0))) =
                         real (length subs) - 1"
    by simp
  with formula show "successRate (systemMetrics final) =
                       (real (length subs) - 1) / real (length subs) * 100"
    by simp
qed

lemma runSucceeds_accounts:
  "runSucceeds r (newJob jid t Accounts n) \<longleftrightarrow>
     accountsLogic (logic r) (''out/accounts_'' @ take 8 jid @ ''.csv'') = None"
  by (simp add: runSucceeds_def processJob_def beginJob_def generateAccountsReport_def
      newJob_def Let_def)

lemma finishJob_queue_update:
  "finishJob r jid job (s\<lparr>jobQueue := x\<rparr>) = (finishJob r jid job s)\<lparr>jobQueue := x\<rparr>"
  by (rule ReportsService.equality)
     (simp_all add: finishJob_def updateSystemMetrics_def cleanupOldJobs_def Let_def
        split: option.splits)

lemma processLoop_queue_jobs:
  "jobs (processLoop env q (s\<lparr>jobQueue := x\<rparr>)) = jobs (processLoop env q s)"
  by (cases q) simp_all

lemma drain_rate_rolling:
  assumes "registryInv (jobs s) (qs @ [jid])"
  shows "\<exists>job. map_of (jobs (processLoop env qs s)) jid = Some job
           \<and> successRate (systemMetrics (processLoop env (qs @ [jid]) s)) =
               rateOver (AList.update jid (passResult (env jid) job) (jobs (processLoop env qs s)))
           \<and> jobs (processLoop env (qs @ [jid]) s) =
               filter (\<lambda>(k, j). \<not> expired (sweepAt (env jid) - 3600000) j)
                 (AList.update jid (passResult (env jid) job) (jobs (processLoop env qs s)))"
  using assms
proof (induction qs arbitrary: s)
  case Nil
  then obtain job where job: "map_of (jobs s) jid = Some job"
    by (auto simp: registryInv_def)
  then show ?case
    by (simp add: processIteration_passResult finishJob_successRate finishJob_jobs)
next
  case (Cons a rest)
  from Cons.prems obtain ja where ja: "map_of (jobs s) a = Some ja"
    by (auto simp: registryInv_def)
  from Cons.prems have notin: "a \<notin> set (rest @ [jid])"
    by (simp add: registryInv_def)
  let ?t = "finishJob (env a) a (passResult (env a) ja) s"
  have long: "processLoop env ((a # rest) @ [jid]) s =
                processLoop env (rest @ [jid]) (?t\<lparr>jobQueue := rest @ [jid]\<rparr>)"
    by (simp add: ja processIteration_passResult finishJob_queue_update)
  have short: "processLoop env (a # rest) s = processLoop env rest (?t\<lparr>jobQueue := rest\<rparr>)"
    by (simp add: ja processIteration_passResult finishJob_queue_update)
  have invt: "registryInv (jobs s) (rest @ [jid])"
    using registryInv_tail [of "jobs s" a "rest @ [jid]"] Cons.prems by simp
  have inv1: "registryInv (jobs (?t\<lparr>jobQueue := rest @ [jid]\<rparr>)) (rest @ [jid])"
    using finishJob_registryInv [OF invt notin passResult_terminal, of "env a" "env a" ja]
    by simp
  have same: "jobs (processLoop env rest (?t\<lparr>jobQueue := rest @ [jid]\<rparr>)) =
                jobs (processLoop env rest (?t\<lparr>jobQueue := rest\<rparr>))"
    by (simp add: processLoop_queue_jobs)
  from Cons.IH [OF inv1] show ?case
    unfolding long short same .
qed


lemma drain_rolling_window:
  assumes inv: "registryInv (jobs s) (jobQueue s)" and idle: "\<not> isProcessing s"
    and ne: "jobQueue s \<noteq> []"
  shows "successRate (systemMetrics (processQueue env s)) = rateOver (lastUpdateRegistry env s)"
    and "jobs (processQueue env s) =
           filter (\<lambda>(k, j). \<not> expired (sweepAt (env (last (jobQueue s))) - 60 * 60 * 1000) j)
             (lastUpdateRegistry env s)"
proof -
  let ?s1 = "s\<lparr>isProcessing := True\<rparr>"
  let ?qs = "butlast (jobQueue s)"
  let ?jid = "last (jobQueue s)"
  from ne have q: "?qs @ [?jid] = jobQueue s" by simp
  from inv have "registryInv (jobs ?s1) (?qs @ [?jid])" by (simp add: q)
  from drain_rate_rolling [OF this, of env]
  obtain job where job: "map_of (jobs (processLoop env ?qs ?s1)) ?jid = Some job"
    and rate: "successRate (systemMetrics (processLoop env (?qs @ [?jid]) ?s1)) =
                 rateOver (AList.update ?jid (passResult (env ?jid) job) (jobs (processLoop env ?qs ?s1)))"
    and reg: "jobs (processLoop env (?qs @ [?jid]) ?s1) =
                filter (\<lambda>(k, j). \<not> expired (sweepAt (env ?jid) - 3600000) j)
                  (AList.update ?jid (passResult (env ?jid) job) (jobs (processLoop env ?qs ?s1)))"
    by blast
  have lur: "lastUpdateRegistry env s =
               AList.update ?jid (passResult (env ?jid) job) (jobs (processLoop env ?qs ?s1))"
    by (simp add: lastUpdateRegistry_def job Let_def)
  note pq = processQueue_drains [OF idle ne, of env]
  from rate show "successRate (systemMetrics (processQueue env s)) = rateOver (lastUpdateRegistry env s)"
    by (simp only: pq lur q)
  from reg show "jobs (processQueue env s) =
           filter (\<lambda>(k, j). \<not> expired (sweepAt (env (last (jobQueue s))) - 60 * 60 * 1000) j)
             (lastUpdateRegistry env s)"
    by (simp add: pq lur q)
qed

text \<open>
  Claim C9, amended. After a drain of a non-empty queue, started on an idle service
  whose registry satisfies the invariant, the reported success rate is the ratio of
  completed records among the completed and failed ones, times 100, over the records
  retained at the last metrics update of the drain; the records retained after the
  drain are those that the last sweep does not evict. For a non-empty sequence of
  submissions with distinct identifiers to a fresh service (a state of that kind): if
  the report generation succeeds for every job, the reported rate is 100; and if no
  record is evicted during the drain, all submitted records are retained, the rate is
  the ratio over the retained records, it is the number of succeeding jobs divided by
  the number of submissions, times 100, and so (N - 1) / N * 100 when exactly one job
  fails.
\<close>

theorem success_rate_after_drain:
  fixes subs :: "Submission list" and env :: "string \<Rightarrow> JobRun" and s :: ReportsService
  defines "s0 \<equiv> submitAll subs initialService"
  shows "(registryInv (jobs s) (jobQueue s) \<and> \<not> isProcessing s \<and> jobQueue s \<noteq> [] \<longrightarrow>
            successRate (systemMetrics (processQueue env s)) = rateOver (lastUpdateRegistry env s)
            \<and> jobs (processQueue env s) =
                filter (\<lambda>(k, j). \<not> expired (sweepAt (env (last (jobQueue s))) - 60 * 60 * 1000) j)
                  (lastUpdateRegistry env s))
       \<and> (distinct (map subId subs) \<and> subs \<noteq> [] \<longrightarrow>
            registryInv (jobs s0) (jobQueue s0) \<and> \<not> isProcessing s0 \<and> jobQueue s0 \<noteq> []
            \<and> ((\<forall>(k, j) \<in> set (jobs s0). runSucceeds (env k) j) \<longrightarrow>
                 successRate (systemMetrics (processQueue env s0)) = 100)
            \<and> (noEviction env (set (map subId subs)) \<longrightarrow>
                 successRate (systemMetrics (processQueue env s0)) = rateOver (jobs (processQueue env s0))
                 \<and> length (jobs (processQueue env s0)) = length subs
                 \<and> successRate (systemMetrics (processQueue env s0)) =
                     real (length (filter (\<lambda>(k, j). runSucceeds (env k) j) (jobs s0)))
                       / real (length subs) * 100
                 \<and> (length (filter (\<lambda>(k, j). \<not> runSucceeds (env k) j) (jobs s0)) = 1 \<longrightarrow>
                      successRate (systemMetrics (processQueue env s0)) =
                        (real (length subs) - 1) / real (length subs) * 100)))"
proof (intro conjI impI)
  assume a: "registryInv (jobs s) (jobQueue s) \<and> \<not> isProcessing s \<and> jobQueue s \<noteq> []"
  then show "successRate (systemMetrics (processQueue env s)) = rateOver (lastUpdateRegistry env s)"
    using drain_rolling_window(1) by blast
  from a show "jobs (processQueue env s) =
                filter (\<lambda>(k, j). \<not> expired (sweepAt (env (last (jobQueue s))) - 60 * 60 * 1000) j)
                  (lastUpdateRegistry env s)"
    using drain_rolling_window(2) by blast
next
  assume b: "distinct (map subId subs) \<and> subs \<noteq> []"
  then have d: "distinct (map subId subs)" and ne: "subs \<noteq> []" by simp_all
  note st = submitted_state [OF d, folded s0_def]
  from st(1) show "registryInv (jobs s0) (jobQueue s0)" by (simp only: st(2))
  from st(4) show "\<not> isProcessing s0" .
  from ne show "jobQueue s0 \<noteq> []" by (simp add: st(2))
  note old = drain_of_submissions [OF d ne, of env, folded s0_def]
  {
    assume "\<forall>(k, j) \<in> set (jobs s0). runSucceeds (env k) j"
    with old show "successRate (systemMetrics (processQueue env s0)) = 100" by blast
  }
  assume noev: "noEviction env (set (map subId subs))"
  with old show "successRate (systemMetrics (processQueue env s0)) = rateOver (jobs (processQueue env s0))"
    by blast
  from noev old show "length (jobs (processQueue env s0)) = length subs" by blast
  from noev old show "successRate (systemMetrics (processQueue env s0)) =
                     real (length (filter (\<lambda>(k, j). runSucceeds (env k) j) (jobs s0)))
                       / real (length subs) * 100" by blast
  assume "length (filter (\<lambda>(k, j). \<not> runSucceeds (env k) j) (jobs s0)) = 1"
  with noev old show "successRate (systemMetrics (processQueue env s0)) =
                        (real (length subs) - 1) / real (length subs) * 100" by blast
qed

lemma slow_last_update:
  "lastUpdateRegistry slowRuns threeSubmitted =
     [(''1b2c3d4e-0000'',
       passResult (slowRuns ''1b2c3d4e-0000'') (newJob ''1b2c3d4e-0000'' 14 Accounts 1)),
      (''2c3d4e5f-0000'',
       passResult (slowRuns ''2c3d4e5f-0000'') (newJob ''2c3d4e5f-0000'' 17 Accounts 2))]"
  by (simp add: lastUpdateRegistry_def threeSubmitted_jobs processIteration_passResult
      finishJob_jobs slowRuns_at passResult_success passResult_failure expired_def
      newJob_fields Let_def)

theorem success_rate_after_drain_witness:
  "successRate (systemMetrics (processQueue slowRuns (submitAll threeSubs initialService))) =
     rateOver (lastUpdateRegistry slowRuns (submitAll threeSubs initialService))
   \<and> rateOver (lastUpdateRegistry slowRuns (submitAll threeSubs initialService)) = 50
   \<and> map fst (lastUpdateRegistry slowRuns (submitAll threeSubs initialService)) =
       [''1b2c3d4e-0000'', ''2c3d4e5f-0000'']
   \<and> map fst (jobs (processQueue slowRuns (submitAll threeSubs initialService))) =
       [''2c3d4e5f-0000'']
   \<and> successRate (systemMetrics (processQueue steadyRuns (submitAll threeSubs initialService))) = 100
   \<and> successRate (systemMetrics (processQueue quickRuns (submitAll threeSubs initialService))) =
       rateOver (jobs (processQueue quickRuns (submitAll threeSubs initialService)))
   \<and> length (jobs (processQueue quickRuns (submitAll threeSubs initialService))) = 3
   \<and> successRate (systemMetrics (processQueue quickRuns (submitAll threeSubs initialService))) =
       (3 - 1) / 3 * 100"
proof -
  let ?s3 = "submitAll threeSubs initialService"
  have d: "distinct (map subId threeSubs) \<and> threeSubs \<noteq> []"
    by (simp add: threeSubs_def)
  have len: "length threeSubs = 3" by (simp add: threeSubs_def)
  have noev: "noEviction quickRuns (set (map subId threeSubs))"
    by (simp add: noEviction_def quickRuns_def)
  have good: "\<forall>(k, j) \<in> set (jobs ?s3). runSucceeds (steadyRuns k) j"
    by (simp add: threeSubmitted_jobs [unfolded threeSubmitted_def] runSucceeds_accounts
        steadyRuns_def allSucceed_def)
  have one: "length (filter (\<lambda>(k, j). \<not> runSucceeds (quickRuns k) j) (jobs ?s3)) = 1"
    by (simp add: threeSubmitted_jobs [unfolded threeSubmitted_def] runSucceeds_accounts
        quickRuns_def allSucceed_def accountsFails_def)
  note fresh = success_rate_after_drain [THEN conjunct2, rule_format, OF d]
  note ready = fresh [of slowRuns, THEN conjunct1]
    fresh [of slowRuns, THEN conjunct2, THEN conjunct1]
    fresh [of slowRuns, THEN conjunct2, THEN conjunct2, THEN conjunct1]
  from success_rate_after_drain [of ?s3 slowRuns, THEN conjunct1] ready
  have roll: "successRate (systemMetrics (processQueue slowRuns ?s3)) =
                rateOver (lastUpdateRegistry slowRuns ?s3)"
    and kept: "jobs (processQueue slowRuns ?s3) =
                 filter (\<lambda>(k, j). \<not> expired (sweepAt (slowRuns (last (jobQueue ?s3))) - 60 * 60 * 1000) j)
                   (lastUpdateRegistry slowRuns ?s3)"
    by blast+
  have lur: "lastUpdateRegistry slowRuns ?s3 =
     [(''1b2c3d4e-0000'',
       passResult (slowRuns ''1b2c3d4e-0000'') (newJob ''1b2c3d4e-0000'' 14 Accounts 1)),
      (''2c3d4e5f-0000'',
       passResult (slowRuns ''2c3d4e5f-0000'') (newJob ''2c3d4e5f-0000'' 17 Accounts 2))]"
    using slow_last_update by (simp add: threeSubmitted_def)
  have r50: "rateOver (lastUpdateRegistry slowRuns ?s3) = 50"
    by (simp add: lur slowRuns_at passResult_success passResult_failure rateOver_def
        terminal_def newJob_fields)
  have keys: "map fst (jobs (processQueue slowRuns ?s3)) = [''2c3d4e5f-0000'']"
    by (simp add: kept lur threeSubmitted_jobs [unfolded threeSubmitted_def] slowRuns_at
        passResult_success passResult_failure expired_def)
  from fresh [of steadyRuns] good
  have a: "successRate (systemMetrics (processQueue steadyRuns ?s3)) = 100" by blast
  from fresh [of quickRuns] noev one
  have b: "successRate (systemMetrics (processQueue quickRuns ?s3)) =
             rateOver (jobs (processQueue quickRuns ?s3))
           \<and> length (jobs (processQueue quickRuns ?s3)) = length threeSubs
           \<and> successRate (systemMetrics (processQueue quickRuns ?s3)) =
               (real (length threeSubs) - 1) / real (length threeSubs) * 100"
    by blast
  from roll r50 keys a b show ?thesis by (simp add: lur len)
qed

end
